theory Spec2Isabelle
  imports Complex_Main "HOL-Library.Word" "HOL-Library.Log_Nat"
begin

section \<open>Head-tracked off-axis projection and frame transport\<close>

text \<open>
  A shallow embedding of the sensing-to-projection pipeline (head pose tracker,
  world-position conversion, off-axis camera), of the reconnecting socket hook and of
  the video texture manager.

  Numbers. A TypeScript \<^verbatim>\<open>number\<close> is an IEEE 754 double. Where a statement below
  restates a formula that the source evaluates (the frustum, the world conversion, the
  reconnect delays, the raw sample of the tracker), the formula is read as exact
  arithmetic over \<^typ>\<open>real\<close>, without rounding and without the values NaN and
  Infinity; a quotient is HOL's \<open>/\<close>, which is the program's quotient only where the
  divisor is not zero, so a statement that relies on a quotient comes with the fact
  that its divisor is not zero. Where a statement is a bound or an equality that
  rounding decides (the moving average of the tracker), every operation is modelled
  with its rounding: it yields the double nearest to the exact result, ties going to
  the even mantissa (\<open>fl\<close> below). Overflow to Infinity is not part of that model, and
  the statements that depend on it keep to magnitudes of at most \<open>2 ^ 1023\<close>; landmark
  coordinates and configured values are finite numbers throughout. The one
  number that comes off the wire, the frame timestamp, is only compared and stored,
  never computed with; it is modelled exactly, with NaN and the infinities (type
  \<open>float64\<close> below).
\<close>

subsection \<open>Shared types (types/index.ts)\<close>

record HeadPose =
  pose_x :: real
  pose_y :: real
  pose_z :: real
  interOcularPx :: real
  timestamp :: real

record SmoothedHeadPose = HeadPose +
  worldX :: real
  worldY :: real
  worldZ :: real

record CalibrationData =
  screenWidthCm :: real
  screenHeightCm :: real
  viewingDistanceCm :: real
  pixelsPerCm :: real
  referenceInterOcularPx :: real
  realInterOcularCm :: real

record AxisStrength =
  axis_x :: real
  axis_y :: real
  axis_z :: real

record PerspectiveSettings =
  nearPlane :: real
  farPlane :: real
  movementScale :: real
  settings_smoothingFactor :: real
  axisStrength :: AxisStrength

text \<open>A landmark point \<^verbatim>\<open>{x, y, z}\<close> of the face mesh.\<close>

record Landmark =
  lm_x :: real
  lm_y :: real
  lm_z :: real

subsection \<open>Rounding to the nearest double\<close>

text \<open>
  A double has 52 stored bits of mantissa; the least exponent of a normal double is
  -1022 and the greatest is 1023. \<open>MIN_VALUE\<close> is \<^verbatim>\<open>Number.MIN_VALUE\<close>, the least positive
  double.
\<close>

definition MANT_BITS :: int where "MANT_BITS = 52"

definition MIN_EXP :: int where "MIN_EXP = - 1022"

definition MAX_EXP :: int where "MAX_EXP = 1023"

definition MIN_VALUE :: real where "MIN_VALUE = 2 powi (MIN_EXP - MANT_BITS)"

text \<open>
  The binade of a real \<open>x\<close> is the \<open>e\<close> with \<open>2 ^ e \<le> \<bar>x\<bar> < 2 ^ (e + 1)\<close>, computed from
  the bit length of \<open>\<bar>x\<bar>\<close> in units of \<open>MIN_VALUE\<close>; below the normal range the
  exponent of the representation stays at \<open>MIN_EXP\<close>. The doubles around \<open>x\<close> are the
  multiples of \<open>ulp x\<close>, and \<open>fl x\<close> is the nearest of them, the even multiple when \<open>x\<close>
  lies half-way between two.
\<close>

definition binade :: "real \<Rightarrow> int" where
  "binade x = bitlen \<lfloor>\<bar>x\<bar> * 2 powi (MANT_BITS - MIN_EXP)\<rfloor> - 1 - (MANT_BITS - MIN_EXP)"

definition expo :: "real \<Rightarrow> int" where
  "expo x = max (binade x) MIN_EXP"

definition ulp :: "real \<Rightarrow> real" where
  "ulp x = 2 powi (expo x - MANT_BITS)"

definition rne :: "real \<Rightarrow> int" where
  "rne q = (let f = \<lfloor>q\<rfloor>; r = q - of_int f
            in if r < 1 / 2 then f
               else if 1 / 2 < r then f + 1
               else if even f then f else f + 1)"

definition fl :: "real \<Rightarrow> real" where
  "fl x = of_int (rne (x / ulp x)) * ulp x"

subsection \<open>Head pose tracker (headPose.ts)\<close>

text \<open>The indices of \<^verbatim>\<open>LANDMARKS\<close>.\<close>

definition LEFT_EYE_INNER :: nat where "LEFT_EYE_INNER = 133"
definition RIGHT_EYE_INNER :: nat where "RIGHT_EYE_INNER = 362"
definition LEFT_EYE_OUTER :: nat where "LEFT_EYE_OUTER = 33"
definition RIGHT_EYE_OUTER :: nat where "RIGHT_EYE_OUTER = 263"
definition NOSE_TIP :: nat where "NOSE_TIP = 1"

text \<open>A clamp range \<^verbatim>\<open>[number, number]\<close> is a pair: first the minimum, then the maximum.\<close>

record HeadPoseConfig =
  smoothingFactor :: real
  clampX :: "real \<times> real"
  clampY :: "real \<times> real"
  clampZ :: "real \<times> real"

text \<open>The literal \<^verbatim>\<open>0.3\<close> is the double nearest to 3/10.\<close>

definition DEFAULT_CONFIG :: HeadPoseConfig where
  "DEFAULT_CONFIG =
     \<lparr>smoothingFactor = fl (3 / 10), clampX = (0, 1), clampY = (0, 1),
      clampZ = (fl (3 / 10), 3)\<rparr>"

text \<open>\<^verbatim>\<open>Partial<HeadPoseConfig>\<close>: every field may be missing.\<close>

record PartialHeadPoseConfig =
  opt_smoothingFactor :: "real option"
  opt_clampX :: "(real \<times> real) option"
  opt_clampY :: "(real \<times> real) option"
  opt_clampZ :: "(real \<times> real) option"

text \<open>Object spread and \<^verbatim>\<open>Object.assign\<close>: the fields present in the partial object win.\<close>

definition assignConfig :: "HeadPoseConfig \<Rightarrow> PartialHeadPoseConfig \<Rightarrow> HeadPoseConfig" where
  "assignConfig c p =
     \<lparr>smoothingFactor = (case opt_smoothingFactor p of None \<Rightarrow> smoothingFactor c | Some v \<Rightarrow> v),
      clampX = (case opt_clampX p of None \<Rightarrow> clampX c | Some v \<Rightarrow> v),
      clampY = (case opt_clampY p of None \<Rightarrow> clampY c | Some v \<Rightarrow> v),
      clampZ = (case opt_clampZ p of None \<Rightarrow> clampZ c | Some v \<Rightarrow> v)\<rparr>"

definition clamp :: "real \<Rightarrow> real \<Rightarrow> real \<Rightarrow> real" where
  "clamp val lo hi = max lo (min hi val)"

text \<open>
  \<^verbatim>\<open>alpha * current + (1 - alpha) * previous\<close> in double arithmetic: the two products,
  the difference and the sum are each rounded.
\<close>

definition ema :: "real \<Rightarrow> real \<Rightarrow> real \<Rightarrow> real" where
  "ema current previous alpha = fl (fl (alpha * current) + fl (fl (1 - alpha) * previous))"

record HeadPoseTracker =
  config :: HeadPoseConfig
  previousPose :: "HeadPose option"

text \<open>The constructor's argument: nothing, a smoothing factor, or a partial configuration.\<close>

datatype TrackerArg = NoArg | SmoothingArg real | ConfigArg PartialHeadPoseConfig

definition newHeadPoseTracker :: "TrackerArg \<Rightarrow> HeadPoseTracker" where
  "newHeadPoseTracker arg =
     \<lparr>config = (case arg of
                  SmoothingArg s \<Rightarrow> DEFAULT_CONFIG\<lparr>smoothingFactor := s\<rparr>
                | ConfigArg p \<Rightarrow> assignConfig DEFAULT_CONFIG p
                | NoArg \<Rightarrow> DEFAULT_CONFIG),
      previousPose = None\<rparr>"

definition setSmoothingFactor :: "HeadPoseTracker \<Rightarrow> real \<Rightarrow> HeadPoseTracker" where
  "setSmoothingFactor t factor =
     t\<lparr>config := (config t)\<lparr>smoothingFactor := clamp factor (fl (1 / 100)) 1\<rparr>\<rparr>"

definition setConfig :: "HeadPoseTracker \<Rightarrow> PartialHeadPoseConfig \<Rightarrow> HeadPoseTracker" where
  "setConfig t p = t\<lparr>config := assignConfig (config t) p\<rparr>"

definition reset :: "HeadPoseTracker \<Rightarrow> HeadPoseTracker" where
  "reset t = t\<lparr>previousPose := None\<rparr>"

text \<open>
  \<^verbatim>\<open>headPoseToWorldPosition\<close>: normalised pose to centimetres, the origin at the screen
  centre. The result \<^verbatim>\<open>{x, y, z}\<close> is a triple.
\<close>

definition headPoseToWorldPosition ::
  "'a HeadPose_scheme \<Rightarrow> real \<Rightarrow> real \<Rightarrow> real \<Rightarrow> real \<times> real \<times> real" where
  "headPoseToWorldPosition pose screenWidthCm' screenHeightCm' baseDistanceCm =
     (let x = - (pose_x pose - 1 / 2) * screenWidthCm';
          y = - (pose_y pose - 1 / 2) * screenHeightCm';
          z = baseDistanceCm / pose_z pose
      in (x, y, z))"

text \<open>
  The raw sample of \<^verbatim>\<open>update\<close>, before smoothing: the face centre, the inter-ocular
  distance, the depth proxy, and the clamps. The indices are in range because
  \<^verbatim>\<open>update\<close> reads them only from an array of at least 468 points. The sums, square
  roots and quotients are read exactly; the statements below use of them only that
  the clamp puts the result in its range, and their values at sample inputs where
  the source's arithmetic is exact or the clamp decides.
\<close>

definition rawPose :: "HeadPoseConfig \<Rightarrow> real \<Rightarrow> Landmark list \<Rightarrow> HeadPose" where
  "rawPose cfg now landmarks =
     (let leftEyeInner = landmarks ! LEFT_EYE_INNER;
          rightEyeInner = landmarks ! RIGHT_EYE_INNER;
          noseTip = landmarks ! NOSE_TIP;
          leftEyeOuter = landmarks ! LEFT_EYE_OUTER;
          rightEyeOuter = landmarks ! RIGHT_EYE_OUTER;
          rawX = (lm_x leftEyeInner + lm_x rightEyeInner + lm_x noseTip) / 3;
          rawY = (lm_y leftEyeInner + lm_y rightEyeInner + lm_y noseTip) / 3;
          interOcular = sqrt ((lm_x rightEyeInner - lm_x leftEyeInner)\<^sup>2
                              + (lm_y rightEyeInner - lm_y leftEyeInner)\<^sup>2);
          eyeWidth = sqrt ((lm_x rightEyeOuter - lm_x leftEyeOuter)\<^sup>2
                           + (lm_y rightEyeOuter - lm_y leftEyeOuter)\<^sup>2);
          rawZ = (interOcular + eyeWidth * (1 / 2)) / (15 / 100)
      in \<lparr>pose_x = clamp rawX (fst (clampX cfg)) (snd (clampX cfg)),
          pose_y = clamp rawY (fst (clampY cfg)) (snd (clampY cfg)),
          pose_z = clamp rawZ (fst (clampZ cfg)) (snd (clampZ cfg)),
          interOcularPx = interOcular,
          timestamp = now\<rparr>)"

text \<open>The smoothing step of \<^verbatim>\<open>update\<close>.\<close>

definition smooth :: "real \<Rightarrow> HeadPose option \<Rightarrow> HeadPose \<Rightarrow> HeadPose" where
  "smooth alpha prev raw =
     (case prev of
        Some p \<Rightarrow>
          \<lparr>pose_x = ema (pose_x raw) (pose_x p) alpha,
           pose_y = ema (pose_y raw) (pose_y p) alpha,
           pose_z = ema (pose_z raw) (pose_z p) alpha,
           interOcularPx = ema (interOcularPx raw) (interOcularPx p) alpha,
           timestamp = timestamp raw\<rparr>
      | None \<Rightarrow> raw)"

text \<open>
  \<^verbatim>\<open>update\<close>. The landmark argument is \<open>None\<close> when the caller passes no array. The
  clock \<^verbatim>\<open>performance.now()\<close> and the calibration that \<^verbatim>\<open>calibrationManager\<close> holds are
  read from the environment, so they are arguments here. The result is the returned
  pose (\<open>None\<close> for \<^verbatim>\<open>null\<close>) and the tracker after the call.
\<close>

definition update ::
  "HeadPoseTracker \<Rightarrow> CalibrationData \<Rightarrow> real \<Rightarrow> Landmark list option
     \<Rightarrow> SmoothedHeadPose option \<times> HeadPoseTracker" where
  "update t cal now landmarks =
     (case landmarks of
        None \<Rightarrow> (None, t)
      | Some lms \<Rightarrow>
          if length lms < 468 then (None, t)
          else
            let raw = rawPose (config t) now lms;
                smoothed = smooth (smoothingFactor (config t)) (previousPose t) raw;
                world = headPoseToWorldPosition smoothed
                          (screenWidthCm cal) (screenHeightCm cal) (viewingDistanceCm cal)
            in (Some (HeadPose.extend smoothed
                        \<lparr>worldX = fst world, worldY = fst (snd world), worldZ = snd (snd world)\<rparr>),
                t\<lparr>previousPose := Some smoothed\<rparr>))"

text \<open>
  A sequence of \<^verbatim>\<open>update\<close> calls on one tracker, each with its calibration, clock and
  landmarks; the result is what the calls returned, in order, and the tracker at the end.
\<close>

fun updates ::
  "HeadPoseTracker \<Rightarrow> (CalibrationData \<times> real \<times> Landmark list option) list
     \<Rightarrow> SmoothedHeadPose option list \<times> HeadPoseTracker" where
  "updates t [] = ([], t)"
| "updates t ((cal, now, lms) # rest) =
     (let (r, t') = update t cal now lms;
          (rs, t'') = updates t' rest
      in (r # rs, t''))"

text \<open>
  The same landmark set fed \<open>n\<close> times, the clock of the \<open>i\<close>-th call being \<open>clock i\<close>:
  the pose stored in the tracker after the \<open>n\<close> calls.
\<close>

fun feed :: "HeadPoseTracker \<Rightarrow> CalibrationData \<Rightarrow> (nat \<Rightarrow> real) \<Rightarrow> Landmark list \<Rightarrow> nat
               \<Rightarrow> HeadPoseTracker" where
  "feed t cal clock lms 0 = t"
| "feed t cal clock lms (Suc n) =
     snd (update (feed t cal clock lms n) cal (clock n) (Some lms))"

text \<open>A pose lies in the configured clamp ranges.\<close>

definition inRanges :: "HeadPoseConfig \<Rightarrow> 'a HeadPose_scheme \<Rightarrow> bool" where
  "inRanges cfg p \<longleftrightarrow>
     fst (clampX cfg) \<le> pose_x p \<and> pose_x p \<le> snd (clampX cfg) \<and>
     fst (clampY cfg) \<le> pose_y p \<and> pose_y p \<le> snd (clampY cfg) \<and>
     fst (clampZ cfg) \<le> pose_z p \<and> pose_z p \<le> snd (clampZ cfg)"

subsection \<open>Off-axis camera (offAxisCamera.ts)\<close>

definition DEFAULT_SETTINGS :: PerspectiveSettings where
  "DEFAULT_SETTINGS =
     \<lparr>nearPlane = 1 / 100, farPlane = 10, movementScale = 3 / 2,
      settings_smoothingFactor = 3 / 10,
      axisStrength = \<lparr>axis_x = 1, axis_y = 1, axis_z = 1\<rparr>\<rparr>"

text \<open>
  The arguments of \<^verbatim>\<open>Matrix4.makePerspective\<close>. The projection matrix of the camera is
  a function of these six numbers, computed by the rendering library; the camera
  below stores the arguments of the last call.
\<close>

record Frustum =
  frustum_left :: real
  frustum_right :: real
  frustum_bottom :: real
  frustum_top :: real
  frustum_near :: real
  frustum_far :: real

text \<open>
  What the source sets of the library's \<^verbatim>\<open>PerspectiveCamera\<close>: clipping planes, aspect,
  the frustum of the projection matrix (\<open>None\<close> while it is still the library's own
  field-of-view projection), the position and the point it looks at.
\<close>

record PerspectiveCamera =
  camera_fov :: real
  camera_aspect :: real
  camera_near :: real
  camera_far :: real
  projectionMatrix :: "Frustum option"
  camera_position :: "real \<times> real \<times> real"
  camera_target :: "real \<times> real \<times> real"

record OffAxisCamera =
  camera :: PerspectiveCamera
  settings :: PerspectiveSettings
  screenWidth :: real
  screenHeight :: real
  headX :: real
  headY :: real
  headZ :: real

text \<open>The constructor, with the settings already merged and the calibration read.\<close>

definition newOffAxisCamera :: "real \<Rightarrow> PerspectiveSettings \<Rightarrow> CalibrationData \<Rightarrow> OffAxisCamera" where
  "newOffAxisCamera aspect st cal =
     \<lparr>camera = \<lparr>camera_fov = 45, camera_aspect = aspect,
                 camera_near = nearPlane st, camera_far = farPlane st,
                 projectionMatrix = None,
                 camera_position = (0, 0, viewingDistanceCm cal / 100),
                 camera_target = (0, 0, 0)\<rparr>,
      settings = st,
      screenWidth = screenWidthCm cal / 100,
      screenHeight = screenHeightCm cal / 100,
      headX = 0, headY = 0, headZ = 6 / 10\<rparr>"

definition updateScreenDimensions :: "OffAxisCamera \<Rightarrow> real \<Rightarrow> real \<Rightarrow> OffAxisCamera" where
  "updateScreenDimensions c widthCm heightCm =
     c\<lparr>screenWidth := widthCm / 100, screenHeight := heightCm / 100\<rparr>"

definition updateProjectionMatrix :: "OffAxisCamera \<Rightarrow> OffAxisCamera" where
  "updateProjectionMatrix c =
     (let halfW = screenWidth c / 2;
          halfH = screenHeight c / 2;
          near = nearPlane (settings c);
          far = farPlane (settings c);
          dist = headZ c;
          nearOverDist = near / dist;
          left = (- halfW - headX c) * nearOverDist;
          right = (halfW - headX c) * nearOverDist;
          bottom = (- halfH - headY c) * nearOverDist;
          top = (halfH - headY c) * nearOverDist
      in c\<lparr>camera := (camera c)
             \<lparr>projectionMatrix :=
                 Some \<lparr>frustum_left = left, frustum_right = right, frustum_bottom = bottom,
                       frustum_top = top, frustum_near = near, frustum_far = far\<rparr>,
              camera_position := (headX c, headY c, dist),
              camera_target := (headX c, headY c, 0)\<rparr>\<rparr>)"

definition updateFromHeadPose :: "OffAxisCamera \<Rightarrow> SmoothedHeadPose \<Rightarrow> OffAxisCamera" where
  "updateFromHeadPose c pose =
     (let ms = movementScale (settings c);
          ax = axisStrength (settings c)
      in updateProjectionMatrix
           (c\<lparr>headX := (worldX pose / 100) * ms * axis_x ax,
              headY := (worldY pose / 100) * ms * axis_y ax,
              headZ := max (1 / 10) ((worldZ pose / 100) * axis_z ax)\<rparr>))"

definition setHeadPosition :: "OffAxisCamera \<Rightarrow> real \<Rightarrow> real \<Rightarrow> real \<Rightarrow> OffAxisCamera" where
  "setHeadPosition c x y z =
     updateProjectionMatrix (c\<lparr>headX := x, headY := y, headZ := max (1 / 10) z\<rparr>)"

definition handleResize :: "OffAxisCamera \<Rightarrow> real \<Rightarrow> real \<Rightarrow> OffAxisCamera" where
  "handleResize c width height =
     updateProjectionMatrix (c\<lparr>camera := (camera c)\<lparr>camera_aspect := width / height\<rparr>\<rparr>)"

subsection \<open>Reconnecting socket (useWebSocket.ts)\<close>

text \<open>
  The options of the hook that the reconnection logic reads; the message callbacks
  play no part in it. \<^verbatim>\<open>autoReconnect\<close> defaults to true, \<^verbatim>\<open>reconnectDelay\<close> to
  1000 and \<^verbatim>\<open>maxReconnectDelay\<close> to 30000.
\<close>

record UseWebSocketOptions =
  url :: string
  autoReconnect :: bool
  reconnectDelay :: real
  maxReconnectDelay :: real

definition defaultOptions :: "string \<Rightarrow> UseWebSocketOptions" where
  "defaultOptions u =
     \<lparr>url = u, autoReconnect = True, reconnectDelay = 1000, maxReconnectDelay = 30000\<rparr>"

datatype ReadyState = CONNECTING | OPEN | CLOSING | CLOSED

text \<open>
  The state of one hook instance: the React state \<^verbatim>\<open>connected\<close>, the four refs, and
  the part of the environment the hook acts on, namely the timeouts that are pending
  with \<^verbatim>\<open>connect\<close> as their callback (identifier and delay) and the next timer
  identifier (identifiers are positive, so a stored one is truthy). \<^verbatim>\<open>wsRef\<close> holds the
  one socket whose handlers are attached, by its ready state: \<^verbatim>\<open>connect\<close> detaches the
  handlers of the socket it replaces.
\<close>

record Hook =
  connected :: bool
  wsRef :: "ReadyState option"
  reconnectAttemptRef :: nat
  reconnectTimerRef :: "nat option"
  intentionalCloseRef :: bool
  timers :: "(nat \<times> real) list"
  nextTimer :: nat

definition initialHook :: Hook where
  "initialHook =
     \<lparr>connected = False, wsRef = None, reconnectAttemptRef = 0, reconnectTimerRef = None,
      intentionalCloseRef = False, timers = [], nextTimer = 1\<rparr>"

text \<open>\<^verbatim>\<open>setTimeout(connect, delay)\<close> and \<^verbatim>\<open>clearTimeout(id)\<close>.\<close>

definition setTimeout :: "Hook \<Rightarrow> real \<Rightarrow> nat \<times> Hook" where
  "setTimeout h delay =
     (nextTimer h, h\<lparr>timers := timers h @ [(nextTimer h, delay)], nextTimer := Suc (nextTimer h)\<rparr>)"

definition clearTimeout :: "Hook \<Rightarrow> nat \<Rightarrow> Hook" where
  "clearTimeout h i = h\<lparr>timers := filter (\<lambda>t. fst t \<noteq> i) (timers h)\<rparr>"

definition connect :: "UseWebSocketOptions \<Rightarrow> Hook \<Rightarrow> Hook" where
  "connect opts h =
     (if wsRef h = Some OPEN then h
      else h\<lparr>intentionalCloseRef := False, wsRef := Some CONNECTING\<rparr>)"

definition ws_onopen :: "UseWebSocketOptions \<Rightarrow> Hook \<Rightarrow> Hook" where
  "ws_onopen opts h = h\<lparr>connected := True, reconnectAttemptRef := 0\<rparr>"

definition ws_onclose :: "UseWebSocketOptions \<Rightarrow> Hook \<Rightarrow> Hook" where
  "ws_onclose opts h =
     (let h1 = h\<lparr>connected := False\<rparr>
      in if autoReconnect opts \<and> \<not> intentionalCloseRef h1 then
           let delay = min (reconnectDelay opts * 2 ^ reconnectAttemptRef h1)
                           (maxReconnectDelay opts);
               h2 = h1\<lparr>reconnectAttemptRef := Suc (reconnectAttemptRef h1)\<rparr>;
               (i, h3) = setTimeout h2 delay
           in h3\<lparr>reconnectTimerRef := Some i\<rparr>
         else h1)"

text \<open>\<^verbatim>\<open>WebSocket.close()\<close>: an open or connecting socket starts closing.\<close>

definition socketClose :: "ReadyState \<Rightarrow> ReadyState" where
  "socketClose r = (case r of CONNECTING \<Rightarrow> CLOSING | OPEN \<Rightarrow> CLOSING | _ \<Rightarrow> r)"

definition close :: "Hook \<Rightarrow> Hook" where
  "close h =
     (let h1 = h\<lparr>intentionalCloseRef := True\<rparr>;
          h2 = (case reconnectTimerRef h1 of
                  Some i \<Rightarrow> (clearTimeout h1 i)\<lparr>reconnectTimerRef := None\<rparr>
                | None \<Rightarrow> h1);
          h3 = h2\<lparr>wsRef := map_option socketClose (wsRef h2)\<rparr>
      in h3\<lparr>connected := False\<rparr>)"

definition reconnect :: "Hook \<Rightarrow> Hook" where
  "reconnect h = snd (setTimeout (close h) 100)"

text \<open>
  What can happen to a hook: the attached socket opens or closes, a pending timeout
  fires (its callback is \<^verbatim>\<open>connect\<close>), or the owner calls \<^verbatim>\<open>close\<close> or \<^verbatim>\<open>reconnect\<close>.
  An event that cannot happen in the state (no socket attached, no such timeout
  pending) leaves it as it is. The cleanup of the effect, when the component unmounts
  or the options change, is not among the events.
\<close>

datatype HookEvent = SocketOpens | SocketCloses | TimerFires nat | CallClose | CallReconnect

definition hookStep :: "UseWebSocketOptions \<Rightarrow> Hook \<Rightarrow> HookEvent \<Rightarrow> Hook" where
  "hookStep opts h ev =
     (case ev of
        SocketOpens \<Rightarrow>
          (if wsRef h = Some CONNECTING then ws_onopen opts (h\<lparr>wsRef := Some OPEN\<rparr>) else h)
      | SocketCloses \<Rightarrow>
          (if wsRef h = None \<or> wsRef h = Some CLOSED then h
           else ws_onclose opts (h\<lparr>wsRef := Some CLOSED\<rparr>))
      | TimerFires i \<Rightarrow>
          (if i \<in> fst ` set (timers h) then connect opts (clearTimeout h i) else h)
      | CallClose \<Rightarrow> close h
      | CallReconnect \<Rightarrow> reconnect h)"

definition hookRun :: "UseWebSocketOptions \<Rightarrow> Hook \<Rightarrow> HookEvent list \<Rightarrow> Hook" where
  "hookRun opts h evs = foldl (hookStep opts) h evs"

text \<open>The delays of the timeouts that are pending.\<close>

definition pendingDelays :: "Hook \<Rightarrow> real list" where
  "pendingDelays h = map snd (timers h)"

subsection \<open>Video texture manager (videoTextureManager.ts)\<close>

type_synonym byte = "8 word"

definition HEADER_SIZE :: nat where "HEADER_SIZE = 21"

text \<open>
  The value of a double as the manager uses it: it is read from the header, compared
  and stored. \<^verbatim>\<open>a <= b\<close> is false as soon as one side is NaN.
\<close>

datatype float64 = NaN | NegInfinity | Finite real | PosInfinity

fun f64_le :: "float64 \<Rightarrow> float64 \<Rightarrow> bool" where
  "f64_le NaN _ = False"
| "f64_le _ NaN = False"
| "f64_le NegInfinity _ = True"
| "f64_le _ PosInfinity = True"
| "f64_le (Finite a) (Finite b) = (a \<le> b)"
| "f64_le (Finite a) NegInfinity = False"
| "f64_le PosInfinity _ = False"

fun f64_lt :: "float64 \<Rightarrow> float64 \<Rightarrow> bool" where
  "f64_lt NaN _ = False"
| "f64_lt _ NaN = False"
| "f64_lt (Finite a) (Finite b) = (a < b)"
| "f64_lt NegInfinity NegInfinity = False"
| "f64_lt NegInfinity _ = True"
| "f64_lt PosInfinity _ = False"
| "f64_lt (Finite a) PosInfinity = True"
| "f64_lt (Finite a) NegInfinity = False"

text \<open>Little-endian bytes as a number, and the \<^verbatim>\<open>DataView\<close> reads with \<^verbatim>\<open>littleEndian = true\<close>.\<close>

fun le_nat :: "byte list \<Rightarrow> nat" where
  "le_nat [] = 0"
| "le_nat (b # bs) = unat b + 256 * le_nat bs"

text \<open>
  IEEE 754 binary64 from its 64 bits: sign, 11 bits of exponent, 52 bits of mantissa.
\<close>

definition decodeFloat64 :: "nat \<Rightarrow> float64" where
  "decodeFloat64 bits =
     (let sign = (bits div 2 ^ 63) mod 2;
          e = (bits div 2 ^ 52) mod 2048;
          m = bits mod 2 ^ 52
      in if e = 2047 then
           (if m \<noteq> 0 then NaN else if sign = 1 then NegInfinity else PosInfinity)
         else
           let mag = (if e = 0 then real m * 2 / 2 ^ 1075
                      else real (2 ^ 52 + m) * 2 ^ e / 2 ^ 1075)
           in Finite (if sign = 1 then - mag else mag))"

definition getUint8 :: "byte list \<Rightarrow> nat \<Rightarrow> nat" where
  "getUint8 data off = unat (data ! off)"

definition getUint32 :: "byte list \<Rightarrow> nat \<Rightarrow> nat" where
  "getUint32 data off = le_nat (take 4 (drop off data))"

definition getFloat64 :: "byte list \<Rightarrow> nat \<Rightarrow> float64" where
  "getFloat64 data off = decodeFloat64 (le_nat (take 8 (drop off data)))"

text \<open>
  What a texture shows: the placeholder canvas or a decoded bitmap. Bitmaps are the
  results of the platform's decoder, of any type \<open>'b\<close>.
\<close>

datatype 'b Image = Placeholder | Bitmap 'b

text \<open>
  An entry object of the \<^verbatim>\<open>textures\<close> map, the texture object inlined: its image, its
  \<^verbatim>\<open>needsUpdate\<close> flag and how often \<^verbatim>\<open>dispose()\<close> was called on it. Console output
  and \<^verbatim>\<open>ImageBitmap.close()\<close> on a bitmap that is let go are not modelled.
\<close>

record 'b Entry =
  texture_image :: "'b Image"
  texture_needsUpdate :: bool
  texture_disposals :: nat
  lastTimestamp :: float64
  frameCount :: nat
  processing :: bool
  currentWidth :: nat
  currentHeight :: nat
  lastBitmap :: "'b option"

definition newEntry :: "'b Entry" where
  "newEntry =
     \<lparr>texture_image = Placeholder, texture_needsUpdate = True, texture_disposals = 0,
      lastTimestamp = Finite 0, frameCount = 0, processing = False,
      currentWidth = 64, currentHeight = 64, lastBitmap = None\<rparr>"

text \<open>
  The manager and the entry objects it has created. Entries are objects: a
  \<^verbatim>\<open>processFrame\<close> call keeps the entry it found across its \<^verbatim>\<open>await\<close>, also when the map
  has let go of it meanwhile. So the map \<^verbatim>\<open>textures\<close> holds, in insertion order, source
  ids with the addresses of their entries, \<open>objects\<close> gives the entry at each address,
  and \<open>allocated\<close> is the number of entries created so far, the address of the next.
\<close>

record 'b Manager =
  textures :: "(string \<times> nat) list"
  objects :: "nat \<Rightarrow> 'b Entry"
  allocated :: nat

definition emptyManager :: "'b Manager" where
  "emptyManager = \<lparr>textures = [], objects = (\<lambda>a. newEntry), allocated = 0\<rparr>"

text \<open>\<^verbatim>\<open>this.textures.get(sourceId)\<close>: the address of the entry, if there is one.\<close>

definition entryOf :: "'b Manager \<Rightarrow> string \<Rightarrow> nat option" where
  "entryOf m sourceId = map_of (textures m) sourceId"

text \<open>\<^verbatim>\<open>getTexture\<close>: the manager after the call; the texture returned is the entry's.\<close>

definition getTexture :: "'b Manager \<Rightarrow> string \<Rightarrow> 'b Manager" where
  "getTexture m sourceId =
     (case entryOf m sourceId of
        Some a \<Rightarrow> m
      | None \<Rightarrow> m\<lparr>textures := textures m @ [(sourceId, allocated m)],
                   objects := (objects m)(allocated m := newEntry),
                   allocated := Suc (allocated m)\<rparr>)"

text \<open>
  \<^verbatim>\<open>processFrame\<close> is asynchronous: it runs to its first \<^verbatim>\<open>await\<close>, and runs on when
  the decoder has settled. What is kept across the \<^verbatim>\<open>await\<close> is a \<open>Decode\<close>: the source,
  the entry object, the header fields and the JPEG bytes handed to
  \<^verbatim>\<open>createImageBitmap\<close>.
\<close>

record Decode =
  d_sourceId :: string
  d_entry :: nat
  d_timestamp :: float64
  d_width :: nat
  d_height :: nat
  d_dataLen :: nat
  d_jpegData :: "byte list"

text \<open>
  The first part, up to the \<^verbatim>\<open>await\<close>. \<open>None\<close>: the call has returned \<^verbatim>\<open>false\<close>.
  \<open>Some d\<close>: the call is suspended with the decode \<open>d\<close> in flight. The header reads
  are in range, the length having been checked.
\<close>

definition processFrame_begin ::
  "'b Manager \<Rightarrow> string \<Rightarrow> byte list \<Rightarrow> Decode option \<times> 'b Manager" where
  "processFrame_begin m sourceId data =
     (if length data < HEADER_SIZE then (None, m)
      else if getUint8 data 0 \<noteq> 1 then (None, m)
      else
        let ts = getFloat64 data 1;
            width = getUint32 data 9;
            height = getUint32 data 13;
            dataLen = getUint32 data 17
        in if length data < HEADER_SIZE + dataLen then (None, m)
           else
             let m1 = getTexture m sourceId
             in case entryOf m1 sourceId of
                  None \<Rightarrow> (None, m1)
                | Some a \<Rightarrow>
                    let entry = objects m1 a
                    in if f64_le ts (lastTimestamp entry) then (None, m1)
                       else if processing entry then (None, m1)
                       else (Some \<lparr>d_sourceId = sourceId, d_entry = a, d_timestamp = ts,
                                    d_width = width, d_height = height, d_dataLen = dataLen,
                                    d_jpegData = take dataLen (drop HEADER_SIZE data)\<rparr>,
                             m1\<lparr>objects := (objects m1)(a := entry\<lparr>processing := True\<rparr>)\<rparr>))"

text \<open>
  The second part, after the \<^verbatim>\<open>await\<close>: the decoder has produced a bitmap (\<open>Some\<close>) or
  has thrown (\<open>None\<close>). It writes to the entry object that the first part found,
  whether or not the map still holds it. The result is the value the promise resolves
  to and the manager.
\<close>

definition processFrame_resume ::
  "'b Manager \<Rightarrow> Decode \<Rightarrow> 'b option \<Rightarrow> bool \<times> 'b Manager" where
  "processFrame_resume m d decoded =
     (let entry = objects m (d_entry d)
      in case decoded of
           None \<Rightarrow> (False, m\<lparr>objects := (objects m)(d_entry d := entry\<lparr>processing := False\<rparr>)\<rparr>)
         | Some bitmap \<Rightarrow>
             let e1 = (if currentWidth entry \<noteq> d_width d \<or> currentHeight entry \<noteq> d_height d
                       then entry\<lparr>texture_disposals := Suc (texture_disposals entry),
                                  currentWidth := d_width d, currentHeight := d_height d\<rparr>
                       else entry);
                 e2 = e1\<lparr>lastBitmap := Some bitmap, texture_image := Bitmap bitmap,
                         texture_needsUpdate := True, lastTimestamp := d_timestamp d,
                         frameCount := Suc (frameCount e1), processing := False\<rparr>
             in (True, m\<lparr>objects := (objects m)(d_entry d := e2)\<rparr>))"

text \<open>
  \<^verbatim>\<open>disposeTexture\<close> and \<^verbatim>\<open>disposeAll\<close>: the texture of the entry is disposed and the map
  lets go of the entry. The entry object stays what it is for a call that still holds
  it.
\<close>

definition disposeEntry :: "'b Entry \<Rightarrow> 'b Entry" where
  "disposeEntry e = e\<lparr>texture_disposals := Suc (texture_disposals e)\<rparr>"

definition disposeTexture :: "'b Manager \<Rightarrow> string \<Rightarrow> 'b Manager" where
  "disposeTexture m sourceId =
     (case entryOf m sourceId of
        None \<Rightarrow> m
      | Some a \<Rightarrow> m\<lparr>objects := (objects m)(a := disposeEntry (objects m a)),
                     textures := filter (\<lambda>kv. fst kv \<noteq> sourceId) (textures m)\<rparr>)"

definition disposeAll :: "'b Manager \<Rightarrow> 'b Manager" where
  "disposeAll m =
     m\<lparr>objects := foldl (\<lambda>h kv. h(snd kv := disposeEntry (h (snd kv)))) (objects m) (textures m),
       textures := []\<rparr>"

text \<open>
  The manager on the event loop: the manager and the decodes in flight. A frame
  arrives (a \<^verbatim>\<open>processFrame\<close> call), the \<open>i\<close>-th decode in flight settles, or the owner
  disposes of one texture or of all. Each event is answered by what the call it
  starts or finishes did; an applied frame is answered with its source, the address of
  the entry whose texture took it, and its timestamp.
\<close>

record 'b Loop =
  manager :: "'b Manager"
  inflight :: "Decode list"

datatype 'b FrameEvent = FrameArrives string "byte list" | DecodeSettles nat "'b option"
  | DisposeTexture string | DisposeAll

datatype Answer = Dropped string | Started string | Applied string nat float64
  | DecodeFailed string | Disposed | Nothing

definition emptyLoop :: "'b Loop" where
  "emptyLoop = \<lparr>manager = emptyManager, inflight = []\<rparr>"

definition managerStep :: "'b Loop \<Rightarrow> 'b FrameEvent \<Rightarrow> Answer \<times> 'b Loop" where
  "managerStep s ev =
     (case ev of
        FrameArrives sourceId data \<Rightarrow>
          (case processFrame_begin (manager s) sourceId data of
             (None, m) \<Rightarrow> (Dropped sourceId, s\<lparr>manager := m\<rparr>)
           | (Some d, m) \<Rightarrow> (Started sourceId, \<lparr>manager = m, inflight = inflight s @ [d]\<rparr>))
      | DecodeSettles i decoded \<Rightarrow>
          if i < length (inflight s) then
            let d = inflight s ! i;
                (ok, m) = processFrame_resume (manager s) d decoded
            in (if ok then Applied (d_sourceId d) (d_entry d) (d_timestamp d)
                else DecodeFailed (d_sourceId d),
                \<lparr>manager = m, inflight = take i (inflight s) @ drop (Suc i) (inflight s)\<rparr>)
          else (Nothing, s)
      | DisposeTexture sourceId \<Rightarrow> (Disposed, s\<lparr>manager := disposeTexture (manager s) sourceId\<rparr>)
      | DisposeAll \<Rightarrow> (Disposed, s\<lparr>manager := disposeAll (manager s)\<rparr>))"

fun managerRun :: "'b Loop \<Rightarrow> 'b FrameEvent list \<Rightarrow> Answer list \<times> 'b Loop" where
  "managerRun s [] = ([], s)"
| "managerRun s (ev # evs) =
     (let (a, s1) = managerStep s ev;
          (as, s2) = managerRun s1 evs
      in (a # as, s2))"

text \<open>The timestamps of the frames applied to the texture of one entry, in order.\<close>

fun appliedTo :: "nat \<Rightarrow> Answer list \<Rightarrow> float64 list" where
  "appliedTo a [] = []"
| "appliedTo a (Applied s b ts # as) =
     (if b = a then ts # appliedTo a as else appliedTo a as)"
| "appliedTo a (_ # as) = appliedTo a as"

text \<open>A frame message: the 21 bytes of header, then the payload.\<close>

definition frameBytes :: "byte \<Rightarrow> byte list \<Rightarrow> byte list \<Rightarrow> byte list \<Rightarrow> byte list \<Rightarrow> byte list
                            \<Rightarrow> byte list" where
  "frameBytes ty ts8 w4 h4 len4 payload = ty # ts8 @ w4 @ h4 @ len4 @ payload"

subsection \<open>Calibration defaults (calibration.ts)\<close>

definition DEFAULT_CALIBRATION :: CalibrationData where
  "DEFAULT_CALIBRATION =
     \<lparr>screenWidthCm = 34, screenHeightCm = 19, viewingDistanceCm = 60, pixelsPerCm = 0,
      referenceInterOcularPx = 1 / 10, realInterOcularCm = 63 / 10\<rparr>"

subsection \<open>The frustum formula as the specification writes it\<close>

text \<open>
  This definition follows the words of the specification, not the source: from the
  half-width and half-height of the screen, the head offset, the planes and the head
  distance it gives \<open>left\<close>, \<open>right\<close>, \<open>bottom\<close>, \<open>top\<close> scaled by \<open>near / distance\<close>.
  It is compared below with what \<^verbatim>\<open>updateProjectionMatrix\<close> stores.
\<close>

definition spec_frustum ::
  "real \<Rightarrow> real \<Rightarrow> real \<Rightarrow> real \<Rightarrow> real \<Rightarrow> real \<Rightarrow> real \<Rightarrow> Frustum" where
  "spec_frustum halfScreenWidth halfScreenHeight hx hy near far headDistance =
     \<lparr>frustum_left = (- halfScreenWidth - hx) * (near / headDistance),
      frustum_right = (halfScreenWidth - hx) * (near / headDistance),
      frustum_bottom = (- halfScreenHeight - hy) * (near / headDistance),
      frustum_top = (halfScreenHeight - hy) * (near / headDistance),
      frustum_near = near, frustum_far = far\<rparr>"

definition spec_frustum_of :: "OffAxisCamera \<Rightarrow> Frustum" where
  "spec_frustum_of c =
     spec_frustum (screenWidth c / 2) (screenHeight c / 2) (headX c) (headY c)
       (nearPlane (settings c)) (farPlane (settings c)) (headZ c)"

subsection \<open>Predicates and sample inputs for the tracker\<close>






text \<open>
  A value of magnitude at most \<open>2 ^ 1022\<close>: the moving average of two such values
  does not overflow.
\<close>

definition moderate :: "real \<Rightarrow> bool" where
  "moderate v \<longleftrightarrow> \<bar>v\<bar> \<le> 2 powi (MAX_EXP - 1)"

text \<open>
  A face mesh of 468 points that all sit at the origin; a face mesh of a face that
  fills the frame, the eyes at its left and right edge and the nose in the middle; a
  tracker with the default configuration and a stored pose.
\<close>

definition zeroLandmarks :: "Landmark list" where
  "zeroLandmarks = replicate 468 \<lparr>lm_x = 0, lm_y = 0, lm_z = 0\<rparr>"

definition closeFace :: "Landmark list" where
  "closeFace = (replicate 468 \<lparr>lm_x = 0, lm_y = 0, lm_z = 0\<rparr>)
     [LEFT_EYE_INNER := \<lparr>lm_x = 0, lm_y = 1 / 2, lm_z = 0\<rparr>,
      RIGHT_EYE_INNER := \<lparr>lm_x = 1, lm_y = 1 / 2, lm_z = 0\<rparr>,
      NOSE_TIP := \<lparr>lm_x = 1 / 2, lm_y = 1 / 2, lm_z = 0\<rparr>,
      LEFT_EYE_OUTER := \<lparr>lm_x = 0, lm_y = 1 / 2, lm_z = 0\<rparr>,
      RIGHT_EYE_OUTER := \<lparr>lm_x = 1, lm_y = 1 / 2, lm_z = 0\<rparr>]"

definition sampleTracker :: HeadPoseTracker where
  "sampleTracker = \<lparr>config = DEFAULT_CONFIG,
     previousPose = Some \<lparr>pose_x = 1, pose_y = 1, pose_z = 3, interOcularPx = 1, timestamp = 0\<rparr>\<rparr>"

subsection \<open>Scenarios and invariants of the socket hook\<close>

text \<open>
  The hook once mounted (the effect has called \<^verbatim>\<open>connect\<close>); \<open>k\<close> failed attempts in a
  row, each a close of the socket followed by the firing of the timeout that the close
  scheduled (timer identifiers count from 1); and the invariant of runs without a
  manual \<^verbatim>\<open>reconnect()\<close>: a pending timeout is the only one, it is the one the hook
  tracks, and the socket is closed while it is pending.
\<close>

definition retries :: "nat \<Rightarrow> HookEvent list" where
  "retries k = concat (map (\<lambda>i. [SocketCloses, TimerFires (Suc i)]) [0..<k])"

definition mounted :: "UseWebSocketOptions \<Rightarrow> Hook" where
  "mounted opts = connect opts initialHook"

definition tracked :: "Hook \<Rightarrow> bool" where
  "tracked h \<longleftrightarrow> timers h = [] \<or>
      (wsRef h = Some CLOSED \<and> (\<exists>d. timers h = [(the (reconnectTimerRef h), d)] \<and> reconnectTimerRef h \<noteq> None))"

subsection \<open>Sample frames and invariants of the texture manager\<close>

text \<open>
  A well-formed frame of a 2 by 2 image with three bytes of payload, for a given
  timestamp; the doubles 1.0, 2.0, 3.0 and a NaN in little-endian bytes.
\<close>

definition sampleFrame :: "byte list \<Rightarrow> byte list" where
  "sampleFrame ts8 = frameBytes 1 ts8 [2, 0, 0, 0] [2, 0, 0, 0] [3, 0, 0, 0] [0xFF, 0xD8, 0xFF]"

definition ts_one :: "byte list" where "ts_one = [0, 0, 0, 0, 0, 0, 0xF0, 0x3F]"

definition ts_two :: "byte list" where "ts_two = [0, 0, 0, 0, 0, 0, 0, 0x40]"

definition ts_three :: "byte list" where "ts_three = [0, 0, 0, 0, 0, 0, 0x08, 0x40]"

definition ts_nan :: "byte list" where "ts_nan = [0, 0, 0, 0, 0, 0, 0xF8, 0x7F]"

text \<open>Every frame of a run carries a timestamp that is a number, not NaN.\<close>

definition numericTimestamps :: "'b FrameEvent list \<Rightarrow> bool" where
  "numericTimestamps evs =
     list_all (\<lambda>ev. case ev of FrameArrives sid data \<Rightarrow> getFloat64 data 1 \<noteq> NaN | _ \<Rightarrow> True) evs"

text \<open>
  The busy flag of an entry object is set exactly while a decode that holds the object
  is in flight, no two decodes in flight hold one object, and the objects of the map
  and of the decodes in flight have been created.
\<close>

definition wellLinked :: "'b Loop \<Rightarrow> bool" where
  "wellLinked s \<longleftrightarrow>
     distinct (map d_entry (inflight s)) \<and>
     (\<forall>a. processing (objects (manager s) a) \<longleftrightarrow> a \<in> d_entry ` set (inflight s)) \<and>
     (\<forall>d \<in> set (inflight s). d_entry d < allocated (manager s)) \<and>
     (\<forall>kv \<in> set (textures (manager s)). snd kv < allocated (manager s))"

text \<open>
  The ordering invariant of one entry object: the timestamps applied to its texture so
  far increase strictly and none exceeds its last timestamp, which is a number; nothing
  has been applied to an object not yet created; and a decode in flight that holds the
  object carries a newer timestamp.
\<close>

definition ordered :: "'b Loop \<Rightarrow> nat \<Rightarrow> Answer list \<Rightarrow> bool" where
  "ordered s a as \<longleftrightarrow>
     sorted_wrt f64_lt (appliedTo a as) \<and>
     lastTimestamp (objects (manager s) a) \<noteq> NaN \<and>
     (\<forall>x \<in> set (appliedTo a as). f64_le x (lastTimestamp (objects (manager s) a))) \<and>
     (allocated (manager s) \<le> a \<longrightarrow> appliedTo a as = []) \<and>
     (\<forall>d \<in> set (inflight s). d_entry d = a \<longrightarrow>
        d_timestamp d \<noteq> NaN \<and> f64_lt (lastTimestamp (objects (manager s) a)) (d_timestamp d))"

section \<open>Properties\<close>

subsection \<open>Off-axis camera\<close>

lemma updateProjectionMatrix_frustum:
  "projectionMatrix (camera (updateProjectionMatrix c)) = Some (spec_frustum_of c)"
  by (simp add: updateProjectionMatrix_def spec_frustum_of_def spec_frustum_def Let_def)

lemma updateProjectionMatrix_fields:
  "headX (updateProjectionMatrix c) = headX c"
  "headY (updateProjectionMatrix c) = headY c"
  "headZ (updateProjectionMatrix c) = headZ c"
  "screenWidth (updateProjectionMatrix c) = screenWidth c"
  "screenHeight (updateProjectionMatrix c) = screenHeight c"
  "settings (updateProjectionMatrix c) = settings c"
  by (simp_all add: updateProjectionMatrix_def Let_def)

lemma spec_frustum_of_updateProjectionMatrix:
  "spec_frustum_of (updateProjectionMatrix c) = spec_frustum_of c"
  by (simp add: spec_frustum_of_def updateProjectionMatrix_fields)

lemma spec_frustum_symmetric:
  "frustum_left (spec_frustum hw hh 0 0 n f dz) = - frustum_right (spec_frustum hw hh 0 0 n f dz)"
  "frustum_bottom (spec_frustum hw hh 0 0 n f dz) = - frustum_top (spec_frustum hw hh 0 0 n f dz)"
  by (simp_all add: spec_frustum_def)

text \<open>
  Claim C1. \<^verbatim>\<open>setHeadPosition\<close> stores the head position it is given, the distance not
  less than 0.1, and \<^verbatim>\<open>updateFromHeadPose\<close> stores the one it computes from the pose;
  both then store the frustum that the formula gives for the stored head position,
  the half-width and half-height of the screen and the planes, put the camera at the
  head position and aim it at the point of the screen in front of it, and change
  nothing else. The stored distance is positive, so \<open>near / dist\<close> is a quotient by a
  number that is not zero. With the head at \<open>(0, 0, dist)\<close>, for every \<open>dist\<close>, the
  frustum is symmetric: \<open>left = - right\<close> and \<open>bottom = - top\<close>.
\<close>

theorem frustum_after_head_update:
  "setHeadPosition c x y z =
     c\<lparr>headX := x, headY := y, headZ := max (1 / 10) z,
       camera := (camera c)
         \<lparr>projectionMatrix :=
            Some (spec_frustum (screenWidth c / 2) (screenHeight c / 2) x y
                    (nearPlane (settings c)) (farPlane (settings c)) (max (1 / 10) z)),
          camera_position := (x, y, max (1 / 10) z),
          camera_target := (x, y, 0)\<rparr>\<rparr>
   \<and> updateFromHeadPose c pose =
     c\<lparr>headX := (worldX pose / 100) * movementScale (settings c) * axis_x (axisStrength (settings c)),
       headY := (worldY pose / 100) * movementScale (settings c) * axis_y (axisStrength (settings c)),
       headZ := max (1 / 10) ((worldZ pose / 100) * axis_z (axisStrength (settings c))),
       camera := (camera c)
         \<lparr>projectionMatrix :=
            Some (spec_frustum (screenWidth c / 2) (screenHeight c / 2)
                    ((worldX pose / 100) * movementScale (settings c) * axis_x (axisStrength (settings c)))
                    ((worldY pose / 100) * movementScale (settings c) * axis_y (axisStrength (settings c)))
                    (nearPlane (settings c)) (farPlane (settings c))
                    (max (1 / 10) ((worldZ pose / 100) * axis_z (axisStrength (settings c))))),
          camera_position :=
            ((worldX pose / 100) * movementScale (settings c) * axis_x (axisStrength (settings c)),
             (worldY pose / 100) * movementScale (settings c) * axis_y (axisStrength (settings c)),
             max (1 / 10) ((worldZ pose / 100) * axis_z (axisStrength (settings c)))),
          camera_target :=
            ((worldX pose / 100) * movementScale (settings c) * axis_x (axisStrength (settings c)),
             (worldY pose / 100) * movementScale (settings c) * axis_y (axisStrength (settings c)),
             0)\<rparr>\<rparr>
   \<and> projectionMatrix (camera (updateFromHeadPose c pose))
     = Some (spec_frustum_of (updateFromHeadPose c pose))
   \<and> projectionMatrix (camera (setHeadPosition c x y z))
     = Some (spec_frustum_of (setHeadPosition c x y z))
   \<and> 0 < headZ (updateFromHeadPose c pose) \<and> 0 < headZ (setHeadPosition c x y z)
   \<and> (\<exists>f. projectionMatrix (camera (setHeadPosition c 0 0 dz)) = Some f
          \<and> frustum_left f = - frustum_right f \<and> frustum_bottom f = - frustum_top f)
   \<and> (\<exists>f. projectionMatrix (camera (updateFromHeadPose c (pose\<lparr>worldX := 0, worldY := 0\<rparr>)))
            = Some f
          \<and> frustum_left f = - frustum_right f \<and> frustum_bottom f = - frustum_top f)
   \<and> frustum_left (spec_frustum hw hh 0 0 n f dz) = - frustum_right (spec_frustum hw hh 0 0 n f dz)
   \<and> frustum_bottom (spec_frustum hw hh 0 0 n f dz) = - frustum_top (spec_frustum hw hh 0 0 n f dz)"
proof -
  have set_eq: "setHeadPosition c x y z =
     c\<lparr>headX := x, headY := y, headZ := max (1 / 10) z,
       camera := (camera c)
         \<lparr>projectionMatrix :=
            Some (spec_frustum (screenWidth c / 2) (screenHeight c / 2) x y
                    (nearPlane (settings c)) (farPlane (settings c)) (max (1 / 10) z)),
          camera_position := (x, y, max (1 / 10) z),
          camera_target := (x, y, 0)\<rparr>\<rparr>" for x y z
    by (simp add: setHeadPosition_def updateProjectionMatrix_def spec_frustum_def Let_def)
  have upd_eq: "updateFromHeadPose c pose =
     setHeadPosition c
       ((worldX pose / 100) * movementScale (settings c) * axis_x (axisStrength (settings c)))
       ((worldY pose / 100) * movementScale (settings c) * axis_y (axisStrength (settings c)))
       ((worldZ pose / 100) * axis_z (axisStrength (settings c)))" for pose
    by (simp add: setHeadPosition_def updateFromHeadPose_def Let_def)
  have a: "projectionMatrix (camera (updateFromHeadPose c pose))
             = Some (spec_frustum_of (updateFromHeadPose c pose))" for pose
    by (simp add: updateFromHeadPose_def Let_def updateProjectionMatrix_frustum
        spec_frustum_of_updateProjectionMatrix)
  have b: "projectionMatrix (camera (setHeadPosition c x y z))
             = Some (spec_frustum_of (setHeadPosition c x y z))" for x y z
    by (simp add: setHeadPosition_def updateProjectionMatrix_frustum
        spec_frustum_of_updateProjectionMatrix)
  have pos: "0 < headZ (updateFromHeadPose c pose)" "0 < headZ (setHeadPosition c x y z)"
    by (simp_all add: updateFromHeadPose_def setHeadPosition_def Let_def
        updateProjectionMatrix_fields less_max_iff_disj)
  have s1: "frustum_left (spec_frustum_of (setHeadPosition c 0 0 dz))
              = - frustum_right (spec_frustum_of (setHeadPosition c 0 0 dz))"
           "frustum_bottom (spec_frustum_of (setHeadPosition c 0 0 dz))
              = - frustum_top (spec_frustum_of (setHeadPosition c 0 0 dz))"
    by (simp_all add: spec_frustum_of_def setHeadPosition_def updateProjectionMatrix_fields
        spec_frustum_symmetric)
  have s2: "frustum_left (spec_frustum_of (updateFromHeadPose c (pose\<lparr>worldX := 0, worldY := 0\<rparr>)))
              = - frustum_right (spec_frustum_of (updateFromHeadPose c (pose\<lparr>worldX := 0, worldY := 0\<rparr>)))"
           "frustum_bottom (spec_frustum_of (updateFromHeadPose c (pose\<lparr>worldX := 0, worldY := 0\<rparr>)))
              = - frustum_top (spec_frustum_of (updateFromHeadPose c (pose\<lparr>worldX := 0, worldY := 0\<rparr>)))"
    by (simp_all add: spec_frustum_of_def updateFromHeadPose_def Let_def
        updateProjectionMatrix_fields spec_frustum_symmetric)
  have upd_full: "updateFromHeadPose c pose =
     c\<lparr>headX := (worldX pose / 100) * movementScale (settings c) * axis_x (axisStrength (settings c)),
       headY := (worldY pose / 100) * movementScale (settings c) * axis_y (axisStrength (settings c)),
       headZ := max (1 / 10) ((worldZ pose / 100) * axis_z (axisStrength (settings c))),
       camera := (camera c)
         \<lparr>projectionMatrix :=
            Some (spec_frustum (screenWidth c / 2) (screenHeight c / 2)
                    ((worldX pose / 100) * movementScale (settings c) * axis_x (axisStrength (settings c)))
                    ((worldY pose / 100) * movementScale (settings c) * axis_y (axisStrength (settings c)))
                    (nearPlane (settings c)) (farPlane (settings c))
                    (max (1 / 10) ((worldZ pose / 100) * axis_z (axisStrength (settings c))))),
          camera_position :=
            ((worldX pose / 100) * movementScale (settings c) * axis_x (axisStrength (settings c)),
             (worldY pose / 100) * movementScale (settings c) * axis_y (axisStrength (settings c)),
             max (1 / 10) ((worldZ pose / 100) * axis_z (axisStrength (settings c)))),
          camera_target :=
            ((worldX pose / 100) * movementScale (settings c) * axis_x (axisStrength (settings c)),
             (worldY pose / 100) * movementScale (settings c) * axis_y (axisStrength (settings c)),
             0)\<rparr>\<rparr>"
    unfolding upd_eq by (rule set_eq)
  have sym1: "\<exists>f. projectionMatrix (camera (setHeadPosition c 0 0 dz)) = Some f
          \<and> frustum_left f = - frustum_right f \<and> frustum_bottom f = - frustum_top f"
    using b[of 0 0 dz] s1 by blast
  have sym2: "\<exists>f. projectionMatrix (camera (updateFromHeadPose c (pose\<lparr>worldX := 0, worldY := 0\<rparr>)))
            = Some f
          \<and> frustum_left f = - frustum_right f \<and> frustum_bottom f = - frustum_top f"
    using a[of "pose\<lparr>worldX := 0, worldY := 0\<rparr>"] s2 by blast
  have sym3: "frustum_left (spec_frustum hw hh 0 0 n f dz) = - frustum_right (spec_frustum hw hh 0 0 n f dz)"
    "frustum_bottom (spec_frustum hw hh 0 0 n f dz) = - frustum_top (spec_frustum hw hh 0 0 n f dz)"
    by (simp_all add: spec_frustum_symmetric)
  show ?thesis
    by (intro conjI) (rule set_eq upd_full a b pos sym1 sym2 sym3)+
qed

text \<open>
  Claim C2 fails on the distance: the line that stores \<open>headZ\<close> leaves out
  \<^verbatim>\<open>movementScale\<close>, which the comment above the three lines announces and the lines
  for \<open>headX\<close> and \<open>headY\<close> apply. With the default settings (scale 1.5, axis strengths
  1) and calibration, a pose at world position (20, 10, 60) cm is stored as
  (0.3, 0.15, 0.6): the two offsets are scaled, the distance is not, where the claim
  gives 0.9.
\<close>

theorem updateFromHeadPose_distance_unscaled:
  "headX (updateFromHeadPose (newOffAxisCamera 1 DEFAULT_SETTINGS DEFAULT_CALIBRATION)
       \<lparr>pose_x = 1 / 2, pose_y = 1 / 2, pose_z = 1, interOcularPx = 1 / 10, timestamp = 0,
        worldX = 20, worldY = 10, worldZ = 60\<rparr>) = 3 / 10
   \<and> headY (updateFromHeadPose (newOffAxisCamera 1 DEFAULT_SETTINGS DEFAULT_CALIBRATION)
       \<lparr>pose_x = 1 / 2, pose_y = 1 / 2, pose_z = 1, interOcularPx = 1 / 10, timestamp = 0,
        worldX = 20, worldY = 10, worldZ = 60\<rparr>) = 15 / 100
   \<and> headZ (updateFromHeadPose (newOffAxisCamera 1 DEFAULT_SETTINGS DEFAULT_CALIBRATION)
       \<lparr>pose_x = 1 / 2, pose_y = 1 / 2, pose_z = 1, interOcularPx = 1 / 10, timestamp = 0,
        worldX = 20, worldY = 10, worldZ = 60\<rparr>) = 6 / 10
   \<and> max (1 / 10) ((60 / 100) * movementScale DEFAULT_SETTINGS
                      * axis_z (axisStrength DEFAULT_SETTINGS)) = (9 / 10 :: real)"
  by (simp add: updateFromHeadPose_def newOffAxisCamera_def DEFAULT_SETTINGS_def Let_def
      updateProjectionMatrix_fields)

subsection \<open>World-position conversion\<close>

text \<open>
  Claim C8. \<^verbatim>\<open>headPoseToWorldPosition\<close> is a function of its arguments alone, with
  \<open>worldX = - (x - 0.5) * screenWidthCm\<close>, \<open>worldY = - (y - 0.5) * screenHeightCm\<close> and
  \<open>worldZ = baseDistanceCm / z\<close>; at \<open>x = 0.5\<close>, \<open>y = 0.5\<close>, \<open>z = 1\<close> with a screen of
  34 by 19 cm and a base distance of 60 cm it gives \<open>(0, 0, 60)\<close>. The function
  does not guard the quotient: at \<open>z = 0\<close> the program's result is not a real number,
  and the third component of the model says nothing about it.
\<close>

theorem headPoseToWorldPosition_formula:
  "headPoseToWorldPosition pose w h d
     = (- (pose_x pose - 1 / 2) * w, - (pose_y pose - 1 / 2) * h, d / pose_z pose)
   \<and> headPoseToWorldPosition
       \<lparr>pose_x = 1 / 2, pose_y = 1 / 2, pose_z = 1, interOcularPx = i, timestamp = t\<rparr> 34 19 60
     = (0, 0, 60)"
  by (simp add: headPoseToWorldPosition_def)

subsection \<open>Rounding to the nearest double\<close>

text \<open>Rounding a quotient to the nearest integer, ties to even.\<close>

lemma rne_int: "rne (of_int n) = n"
  by (simp add: rne_def)

lemma rne_err: "\<bar>of_int (rne q) - q\<bar> \<le> 1 / 2"
  unfolding rne_def Let_def by (auto; linarith)

lemma rne_mono:
  assumes "q \<le> q'"
  shows "rne q \<le> rne q'"
proof (cases "\<lfloor>q\<rfloor> = \<lfloor>q'\<rfloor>")
  case True
  then show ?thesis using assms unfolding rne_def Let_def by auto
next
  case False
  then have lt: "\<lfloor>q\<rfloor> < \<lfloor>q'\<rfloor>" using assms floor_mono[OF assms] by linarith
  have a: "rne q \<le> \<lfloor>q\<rfloor> + 1" unfolding rne_def Let_def by auto
  have b: "\<lfloor>q'\<rfloor> \<le> rne q'" unfolding rne_def Let_def by auto
  show ?thesis using a b lt by linarith
qed

lemma rne_minus: "rne (- q) = - rne q"
proof (cases "q \<in> \<int>")
  case True
  then obtain n where "q = of_int n" by (auto elim: Ints_cases)
  then show ?thesis using rne_int[of n] rne_int[of "- n"] by simp
next
  case False
  then have fr: "of_int \<lfloor>q\<rfloor> < q"
    by (metis Ints_of_int of_int_floor_le order_le_less)
  have fm: "\<lfloor>- q\<rfloor> = - \<lfloor>q\<rfloor> - 1"
  proof (rule floor_unique)
    show "of_int (- \<lfloor>q\<rfloor> - 1) \<le> - q" by simp linarith
    show "- q < of_int (- \<lfloor>q\<rfloor> - 1) + 1" using fr by simp
  qed
  have odd_even: "even (- \<lfloor>q\<rfloor> - 1) \<longleftrightarrow> odd \<lfloor>q\<rfloor>" by simp
  show ?thesis unfolding rne_def Let_def fm odd_even using fr
    by (auto simp: field_simps)
qed

text \<open>Powers of two with integer exponents.\<close>

lemma powi_pos: "0 < (2::real) powi a"
  by (simp add: zero_less_power_int)

lemma powi_nat: "0 \<le> e \<Longrightarrow> (2::real) powi e = 2 ^ nat e"
  by (simp add: power_int_def)

lemma powi_less_cancel: "(2::real) powi a < 2 powi b \<Longrightarrow> a < b"
  by (metis linorder_not_less one_le_numeral power_int_increasing)

lemma powi_le: "a \<le> b \<Longrightarrow> (2::real) powi a \<le> 2 powi b"
  by (simp add: power_int_increasing)

lemma powi_less: "a < b \<Longrightarrow> (2::real) powi a < 2 powi b"
  by (simp add: power_int_strict_increasing)

lemma powi_add: "(2::real) powi (a + b) = 2 powi a * 2 powi b"
  by (simp add: power_int_add)

lemma powi_split: "a = b + c \<Longrightarrow> (2::real) powi a = 2 powi b * 2 powi c"
  by (simp add: power_int_add)

lemma powi_diff: "(2::real) powi (a - b) = 2 powi a / 2 powi b"
  by (simp add: power_int_diff)

text \<open>The binade of a real that is not below the least positive double, and its uniqueness.\<close>

lemma binade_bounds:
  assumes "2 powi (MIN_EXP - MANT_BITS) \<le> \<bar>x\<bar>"
  shows "2 powi binade x \<le> \<bar>x\<bar>" "\<bar>x\<bar> < 2 powi (binade x + 1)"
    "MIN_EXP - MANT_BITS \<le> binade x"
proof -
  define d where "d = MANT_BITS - MIN_EXP"
  define n where "n = \<lfloor>\<bar>x\<bar> * 2 powi d\<rfloor>"
  have dd: "MIN_EXP - MANT_BITS = 0 - d" by (simp add: d_def)
  have "1 \<le> \<bar>x\<bar> * 2 powi d"
    using assms powi_pos[of d] unfolding dd powi_diff by (simp add: field_simps)
  then have n1: "1 \<le> n" unfolding n_def by simp
  then have pos: "0 < n" by simp
  have bl: "1 \<le> bitlen n" using pos bitlen_eq_zero_iff[of n] bitlen_nonneg[of n] by linarith
  note bb = bitlen_bounds[OF pos]
  have lo: "2 powi (bitlen n - 1) \<le> \<bar>x\<bar> * 2 powi d"
  proof -
    have "real_of_int (2 ^ nat (bitlen n - 1)) \<le> of_int n" using bb by (simp only: of_int_le_iff)
    also have "\<dots> \<le> \<bar>x\<bar> * 2 powi d" unfolding n_def by simp
    finally show ?thesis using bl by (simp add: powi_nat)
  qed
  have hi: "\<bar>x\<bar> * 2 powi d < 2 powi (bitlen n)"
  proof -
    have "n < 2 ^ nat (bitlen n)" using bb by simp
    then have "\<bar>x\<bar> * 2 powi d < of_int (2 ^ nat (bitlen n))"
      unfolding n_def by (simp only: floor_less_iff)
    then show ?thesis using bl by (simp add: powi_nat)
  qed
  have b: "binade x = (bitlen n - 1) - d" "binade x + 1 = bitlen n - d"
    by (simp_all add: binade_def n_def d_def)
  have e1: "(2::real) powi (bitlen n - 1 - d) = 2 powi (bitlen n - 1) / 2 powi d"
    by (rule powi_diff)
  have e2: "(2::real) powi (bitlen n - d) = 2 powi (bitlen n) / 2 powi d"
    by (rule powi_diff)
  have "2 powi (bitlen n - 1 - d) \<le> \<bar>x\<bar>"
    unfolding e1 using lo powi_pos[of d] by (simp add: field_simps)
  then show "2 powi binade x \<le> \<bar>x\<bar>" by (simp only: b(1))
  have "\<bar>x\<bar> < 2 powi (bitlen n - d)"
    unfolding e2 using hi powi_pos[of d] by (simp add: field_simps)
  then show "\<bar>x\<bar> < 2 powi (binade x + 1)" by (simp only: b(2))
  show "MIN_EXP - MANT_BITS \<le> binade x" using bl by (simp add: b d_def)
qed

lemma binade_small:
  assumes "\<bar>x\<bar> < 2 powi (MIN_EXP - MANT_BITS)"
  shows "binade x = MIN_EXP - MANT_BITS - 1"
proof -
  define d where "d = MANT_BITS - MIN_EXP"
  have dd: "MIN_EXP - MANT_BITS = 0 - d" by (simp add: d_def)
  have "\<bar>x\<bar> * 2 powi d < 1"
    using assms powi_pos[of d] unfolding dd powi_diff by (simp add: field_simps)
  then have "\<lfloor>\<bar>x\<bar> * 2 powi d\<rfloor> = 0" by (intro floor_unique) simp_all
  then show ?thesis by (simp add: binade_def d_def)
qed

lemma binade_unique:
  assumes "2 powi e \<le> \<bar>x\<bar>" "\<bar>x\<bar> < 2 powi (e + 1)" "MIN_EXP - MANT_BITS \<le> e"
  shows "binade x = e"
proof -
  have "2 powi (MIN_EXP - MANT_BITS) \<le> (2::real) powi e" using assms(3) by (rule powi_le)
  then have n: "2 powi (MIN_EXP - MANT_BITS) \<le> \<bar>x\<bar>" using assms(1) by linarith
  note bb = binade_bounds[OF n]
  have "(2::real) powi e < 2 powi (binade x + 1)" using assms(1) bb(2) by linarith
  then have a: "e < binade x + 1" by (rule powi_less_cancel)
  have "(2::real) powi binade x < 2 powi (e + 1)" using assms(2) bb(1) by linarith
  then have b: "binade x < e + 1" by (rule powi_less_cancel)
  show ?thesis using a b by linarith
qed

text \<open>The exponent and the unit in the last place.\<close>

lemma MANT_BITS_nonneg: "0 \<le> MANT_BITS"
  by (simp add: MANT_BITS_def)

lemma ulp_pos: "0 < ulp x"
  by (simp add: ulp_def powi_pos)

lemma expo_ge: "MIN_EXP \<le> expo x"
  by (simp add: expo_def)

lemma expo_minus: "expo (- x) = expo x"
  by (simp add: expo_def binade_def)

lemma ulp_minus: "ulp (- x) = ulp x"
  by (simp add: ulp_def expo_minus)

lemma abs_less_expo: "\<bar>x\<bar> < 2 powi (expo x + 1)"
proof (cases "2 powi (MIN_EXP - MANT_BITS) \<le> \<bar>x\<bar>")
  case True
  have "\<bar>x\<bar> < 2 powi (binade x + 1)" by (rule binade_bounds(2)[OF True])
  also have "\<dots> \<le> 2 powi (expo x + 1)" by (rule powi_le) (simp add: expo_def)
  finally show ?thesis .
next
  case False
  then have "\<bar>x\<bar> < 2 powi (MIN_EXP - MANT_BITS)" by simp
  also have "\<dots> \<le> 2 powi (expo x + 1)"
    by (rule powi_le) (use MANT_BITS_nonneg expo_ge[of x] in linarith)
  finally show ?thesis .
qed

lemma expo_le_abs:
  assumes "MIN_EXP < expo x"
  shows "2 powi expo x \<le> \<bar>x\<bar>"
proof -
  have eq: "expo x = binade x" using assms by (simp add: expo_def max_def split: if_splits)
  have "\<not> \<bar>x\<bar> < 2 powi (MIN_EXP - MANT_BITS)"
  proof
    assume "\<bar>x\<bar> < 2 powi (MIN_EXP - MANT_BITS)"
    then have "binade x = MIN_EXP - MANT_BITS - 1" by (rule binade_small)
    then show False using assms eq MANT_BITS_nonneg by linarith
  qed
  then have "2 powi (MIN_EXP - MANT_BITS) \<le> \<bar>x\<bar>" by simp
  then show ?thesis unfolding eq by (rule binade_bounds(1))
qed

lemma expo_unique:
  assumes "2 powi e \<le> \<bar>x\<bar>" "\<bar>x\<bar> < 2 powi (e + 1)" "MIN_EXP \<le> e"
  shows "expo x = e"
proof -
  have "binade x = e"
    using assms(1,2) by (rule binade_unique) (use assms(3) MANT_BITS_nonneg in linarith)
  then show ?thesis using assms(3) by (simp add: expo_def)
qed



lemma fl_minus: "fl (- x) = - fl x"
  by (simp add: fl_def ulp_minus rne_minus)

lemma fl_err: "\<bar>fl x - x\<bar> \<le> ulp x / 2"
proof -
  have "\<bar>fl x - x\<bar> = \<bar>of_int (rne (x / ulp x)) - x / ulp x\<bar> * ulp x"
    using ulp_pos[of x] by (simp add: fl_def abs_mult[symmetric] field_simps del: abs_mult)
  also have "\<dots> \<le> (1 / 2) * ulp x"
    by (rule mult_right_mono[OF rne_err]) (use ulp_pos[of x] in simp)
  finally show ?thesis by simp
qed

lemma rne_nonneg: "0 \<le> q \<Longrightarrow> 0 \<le> rne q"
  using rne_mono[of 0 q] rne_int[of 0] by simp

lemma fl_nonneg: "0 \<le> x \<Longrightarrow> 0 \<le> fl x"
  unfolding fl_def using ulp_pos[of x] by (intro mult_nonneg_nonneg) (simp_all add: rne_nonneg)

lemma fl_exact:
  assumes "x = of_int n * 2 powi e" "expo x - MANT_BITS \<le> e"
  shows "fl x = x"
proof -
  define k where "k = nat (e - (expo x - MANT_BITS))"
  have "(2::real) powi e = 2 powi (e - (expo x - MANT_BITS)) * 2 powi (expo x - MANT_BITS)"
    by (simp add: powi_add[symmetric])
  also have "(2::real) powi (e - (expo x - MANT_BITS)) = 2 ^ k"
    unfolding k_def using assms(2) by (simp add: powi_nat)
  finally have e: "(2::real) powi e = 2 ^ k * ulp x" by (simp add: ulp_def)
  have xe: "x = of_int n * (2 ^ k * ulp x)" using assms(1) unfolding e .
  have nz: "ulp x \<noteq> 0" using ulp_pos[of x] by simp
  have "x / ulp x = (of_int n * (2 ^ k * ulp x)) / ulp x"
    using xe by (rule arg_cong[where f = "\<lambda>t. t / ulp x"])
  also have "\<dots> = of_int (n * 2 ^ k)" using nz by simp
  finally have "rne (x / ulp x) = n * 2 ^ k" by (simp only: rne_int)
  then have "fl x = of_int (n * 2 ^ k) * ulp x" by (simp only: fl_def)
  also have "\<dots> = of_int n * (2 ^ k * ulp x)" by simp
  finally show ?thesis using xe by simp
qed

lemma fl_pow2:
  assumes "MIN_EXP \<le> k"
  shows "fl (2 powi k) = 2 powi k"
proof -
  have "expo (2 powi k) = k"
    by (rule expo_unique) (use assms powi_less[of k "k + 1"] powi_pos[of k] in simp_all)
  then show ?thesis using fl_exact[of "2 powi k" 1 k] MANT_BITS_nonneg by simp
qed

text \<open>Rounding is monotone.\<close>

lemma powi_mant: "(2::real) powi (MANT_BITS + 1) = of_int (2 ^ nat (MANT_BITS + 1))"
  "(2::real) powi MANT_BITS = of_int (2 ^ nat MANT_BITS)"
  using MANT_BITS_nonneg by (simp_all add: powi_nat)

lemma quot_less: "\<bar>x\<bar> / ulp x < 2 powi (MANT_BITS + 1)"
proof -
  have "2 powi (expo x + 1) = 2 powi (MANT_BITS + 1) * ulp x"
    unfolding ulp_def by (rule powi_split) simp
  then show ?thesis using abs_less_expo[of x] ulp_pos[of x] by (simp add: field_simps)
qed

lemma rne_abs_le: "\<bar>rne (x / ulp x)\<bar> \<le> 2 ^ nat (MANT_BITS + 1)"
proof -
  have a: "x / ulp x \<le> of_int (2 ^ nat (MANT_BITS + 1))"
    using quot_less[of x] ulp_pos[of x] unfolding powi_mant(1)
    by (smt (verit) divide_right_mono)
  have b: "- (x / ulp x) \<le> of_int (2 ^ nat (MANT_BITS + 1))"
    using quot_less[of x] ulp_pos[of x] unfolding powi_mant(1)
    by (smt (verit) divide_right_mono minus_divide_left)
  have "rne (x / ulp x) \<le> 2 ^ nat (MANT_BITS + 1)"
    using rne_mono[OF a] by (simp only: rne_int)
  moreover have "- rne (x / ulp x) \<le> 2 ^ nat (MANT_BITS + 1)"
    using rne_mono[OF b] by (simp only: rne_int rne_minus)
  ultimately show ?thesis by linarith
qed

lemma fl_abs_le: "\<bar>fl x\<bar> \<le> 2 powi (expo x + 1)"
proof -
  have e: "2 powi (expo x + 1) = of_int (2 ^ nat (MANT_BITS + 1)) * ulp x"
    unfolding powi_mant(1)[symmetric] ulp_def by (rule powi_split) simp
  have "\<bar>fl x\<bar> = of_int \<bar>rne (x / ulp x)\<bar> * ulp x"
    using ulp_pos[of x] by (simp add: fl_def abs_mult)
  also have "\<dots> \<le> of_int (2 ^ nat (MANT_BITS + 1)) * ulp x"
    by (rule mult_right_mono) (use rne_abs_le[of x] ulp_pos[of x] in \<open>simp_all only: of_int_le_iff less_imp_le\<close>)
  finally show ?thesis by (simp only: e)
qed

lemma fl_ge_expo:
  assumes "MIN_EXP < expo x" "0 \<le> x"
  shows "2 powi expo x \<le> fl x"
proof -
  have e: "2 powi expo x = of_int (2 ^ nat MANT_BITS) * ulp x"
    unfolding powi_mant(2)[symmetric] ulp_def by (rule powi_split) simp
  have "2 powi expo x \<le> x" using expo_le_abs[OF assms(1)] assms(2) by simp
  then have "of_int (2 ^ nat MANT_BITS) \<le> x / ulp x"
    unfolding e using ulp_pos[of x] by (simp add: field_simps)
  then have "2 ^ nat MANT_BITS \<le> rne (x / ulp x)"
    using rne_mono[of "of_int (2 ^ nat MANT_BITS)" "x / ulp x"] by (simp only: rne_int)
  then have "of_int (2 ^ nat MANT_BITS) * ulp x \<le> of_int (rne (x / ulp x)) * ulp x"
    by (intro mult_right_mono) (use ulp_pos[of x] in \<open>simp_all only: of_int_le_iff less_imp_le\<close>)
  then show ?thesis by (simp only: e fl_def)
qed

lemma fl_mono_nonneg:
  assumes "0 \<le> x" "x \<le> y"
  shows "fl x \<le> fl y"
proof -
  have y0: "0 \<le> y" using assms by simp
  consider "expo x = expo y" | "expo x < expo y" | "expo y < expo x" by linarith
  then show ?thesis
  proof cases
    case 1
    then have u: "ulp x = ulp y" by (simp add: ulp_def)
    have "x / ulp y \<le> y / ulp y" using assms(2) ulp_pos[of y] by (simp add: divide_right_mono)
    then have "rne (x / ulp y) \<le> rne (y / ulp y)" by (rule rne_mono)
    then have "of_int (rne (x / ulp y)) * ulp y \<le> of_int (rne (y / ulp y)) * ulp y"
      by (intro mult_right_mono) (use ulp_pos[of y] in \<open>simp_all only: of_int_le_iff less_imp_le\<close>)
    then show ?thesis by (simp only: fl_def u)
  next
    case 2
    then have n: "MIN_EXP < expo y" using expo_ge[of x] by linarith
    have "fl x \<le> 2 powi (expo x + 1)" using fl_abs_le[of x] by linarith
    also have "\<dots> \<le> 2 powi expo y" by (rule powi_le) (use 2 in simp)
    also have "\<dots> \<le> fl y" using n y0 by (rule fl_ge_expo)
    finally show ?thesis .
  next
    case 3
    then have n: "MIN_EXP < expo x" using expo_ge[of y] by linarith
    have "y < 2 powi (expo y + 1)" using abs_less_expo[of y] by linarith
    also have "\<dots> \<le> 2 powi expo x" by (rule powi_le) (use 3 in simp)
    also have "\<dots> \<le> x" using expo_le_abs[OF n] assms(1) by simp
    finally show ?thesis using assms(2) by simp
  qed
qed

lemma fl_mono:
  assumes "x \<le> y"
  shows "fl x \<le> fl y"
proof -
  consider "0 \<le> x" | "x < 0" "0 \<le> y" | "y < 0" using assms by linarith
  then show ?thesis
  proof cases
    case 1
    then show ?thesis using assms by (rule fl_mono_nonneg)
  next
    case 2
    have "0 \<le> fl (- x)" using 2(1) by (intro fl_nonneg) simp
    then have "fl x \<le> 0" by (simp add: fl_minus)
    also have "0 \<le> fl y" using 2(2) by (rule fl_nonneg)
    finally show ?thesis .
  next
    case 3
    have "fl (- y) \<le> fl (- x)" by (rule fl_mono_nonneg) (use 3 assms in simp_all)
    then show ?thesis by (simp add: fl_minus)
  qed
qed





text \<open>Rounding evaluated, given the binade.\<close>

lemma fl_eval:
  assumes "2 powi e \<le> \<bar>x\<bar>" "\<bar>x\<bar> < 2 powi (e + 1)" "MIN_EXP \<le> e"
  shows "fl x = of_int (rne (x / 2 powi (e - MANT_BITS))) * 2 powi (e - MANT_BITS)"
  by (simp add: fl_def ulp_def expo_unique[OF assms])


lemma fl_1: "fl 1 = 1"
  using fl_pow2[of 0] by (simp add: MIN_EXP_def)






lemma complement_bounds:
  assumes "0 \<le> alpha" "alpha \<le> 1"
  shows "0 \<le> fl (1 - alpha)" "fl (1 - alpha) \<le> 1"
  using fl_nonneg[of "1 - alpha"] fl_mono[of "1 - alpha" 1] assms by (simp_all add: fl_1)




text \<open>
  The relative rounding error, and the contraction of the moving average up to
  rounding.
\<close>

lemma fl_rel_err:
  "\<bar>fl x - x\<bar> \<le> 2 powi (- 53) * \<bar>x\<bar> + 2 powi (MIN_EXP - MANT_BITS - 1)"
proof (cases "MIN_EXP < expo x")
  case True
  have "ulp x / 2 = 2 powi (- 53) * 2 powi expo x"
  proof -
    have "ulp x = 2 powi (- 52) * 2 powi expo x"
      unfolding ulp_def by (rule powi_split) (simp add: MANT_BITS_def)
    then show ?thesis by (simp add: power_int_minus)
  qed
  also have "\<dots> \<le> 2 powi (- 53) * \<bar>x\<bar>"
    using expo_le_abs[OF True] powi_pos[of "- 53"] by (simp only: mult_le_cancel_left_pos)
  finally show ?thesis using fl_err[of x] powi_pos[of "MIN_EXP - MANT_BITS - 1"] by linarith
next
  case False
  then have e: "expo x = MIN_EXP" using expo_ge[of x] by linarith
  have "ulp x = 2 powi 1 * 2 powi (MIN_EXP - MANT_BITS - 1)"
    unfolding ulp_def e by (rule powi_split) simp
  then have "ulp x / 2 = 2 powi (MIN_EXP - MANT_BITS - 1)" by simp
  moreover have "0 \<le> 2 powi (- 53) * \<bar>x\<bar>" using powi_pos[of "- 53"] by simp
  ultimately show ?thesis using fl_err[of x] by linarith
qed

lemma ema_contraction:
  assumes a0: "0 \<le> alpha" and a1: "alpha \<le> 1"
  shows "\<bar>ema c p alpha - c\<bar>
           \<le> (1 - alpha) * \<bar>p - c\<bar> + 2 powi (- 50) * max \<bar>c\<bar> \<bar>p\<bar>
               + 2 powi (MIN_EXP - MANT_BITS + 1)"
proof -
  define eps :: real where "eps = 2 powi (- 53)"
  define eta :: real where "eta = 2 powi (MIN_EXP - MANT_BITS - 1)"
  define M where "M = max \<bar>c\<bar> \<bar>p\<bar>"
  define beta where "beta = fl (1 - alpha)"
  define a where "a = fl (alpha * c)"
  define b where "b = fl (beta * p)"
  define r where "r = fl (a + b)"
  have eps0: "0 < eps" and eta0: "0 < eta" by (simp_all add: eps_def eta_def powi_pos)
  have epsh: "eps \<le> 1 / 2" by (simp add: eps_def power_int_minus)
  have etaeps: "eta \<le> eps"
    unfolding eta_def eps_def by (rule powi_le) (simp add: MIN_EXP_def MANT_BITS_def)
  have M0: "0 \<le> M" "\<bar>c\<bar> \<le> M" "\<bar>p\<bar> \<le> M" by (simp_all add: M_def)
  have b01: "0 \<le> beta" "beta \<le> 1" unfolding beta_def by (rule complement_bounds[OF a0 a1])+
  note re = fl_rel_err[folded eps_def eta_def]
  have ac: "\<bar>alpha * c\<bar> \<le> M"
  proof -
    have "\<bar>alpha * c\<bar> = alpha * \<bar>c\<bar>" using a0 by (simp add: abs_mult)
    also have "\<dots> \<le> 1 * \<bar>c\<bar>" using a1 by (intro mult_right_mono) simp_all
    finally show ?thesis using M0(2) by simp
  qed
  have bp: "\<bar>beta * p\<bar> \<le> M"
  proof -
    have "\<bar>beta * p\<bar> = beta * \<bar>p\<bar>" using b01(1) by (simp add: abs_mult)
    also have "\<dots> \<le> 1 * \<bar>p\<bar>" using b01(2) by (intro mult_right_mono) simp_all
    finally show ?thesis using M0(3) by simp
  qed
  have epsM: "0 \<le> eps * M" using eps0 M0(1) by simp
  have mono_eps: "eps * t \<le> eps * u" if "t \<le> u" for t u
    using that eps0 by simp
  have e1: "\<bar>a - alpha * c\<bar> \<le> eps * M + eta"
    using re[of "alpha * c"] mono_eps[OF ac] unfolding a_def by linarith
  have e2: "\<bar>b - beta * p\<bar> \<le> eps * M + eta"
    using re[of "beta * p"] mono_eps[OF bp] unfolding b_def by linarith
  have e4: "\<bar>beta - (1 - alpha)\<bar> \<le> eps + eta"
  proof -
    have "\<bar>1 - alpha\<bar> \<le> 1" using a0 a1 by simp
    from mono_eps[OF this] show ?thesis using re[of "1 - alpha"] unfolding beta_def by simp
  qed
  have ab: "\<bar>a + b\<bar> \<le> 2 * M + 2 * (eps * M) + 2 * eta"
    using e1 e2 ac bp by linarith
  have e3: "\<bar>r - (a + b)\<bar> \<le> 4 * (eps * M) + 2 * eta"
  proof -
    have "eps * \<bar>a + b\<bar> \<le> eps * (2 * M + 2 * (eps * M) + 2 * eta)" by (rule mono_eps[OF ab])
    also have "\<dots> = 2 * (eps * M) + 2 * (eps * (eps * M)) + 2 * (eps * eta)"
      by (simp add: algebra_simps)
    also have "\<dots> \<le> 2 * (eps * M) + 2 * (eps * M) + eta"
    proof -
      have "eps * (eps * M) \<le> 1 * (eps * M)"
        using epsh epsM by (intro mult_right_mono) simp_all
      moreover have "eps * eta \<le> (1 / 2) * eta"
        using epsh eta0 by (intro mult_right_mono) simp_all
      ultimately show ?thesis by linarith
    qed
    finally show ?thesis using re[of "a + b"] unfolding r_def by linarith
  qed
  have e4p: "\<bar>(beta - (1 - alpha)) * p\<bar> \<le> 2 * (eps * M)"
  proof -
    have "\<bar>(beta - (1 - alpha)) * p\<bar> = \<bar>beta - (1 - alpha)\<bar> * \<bar>p\<bar>" by (simp add: abs_mult)
    also have "\<dots> \<le> (eps + eta) * M"
      using e4 M0 by (intro mult_mono) simp_all
    also have "\<dots> \<le> (eps + eps) * M"
      using etaeps M0(1) by (intro mult_right_mono) simp_all
    finally show ?thesis by (simp add: algebra_simps)
  qed
  have split: "r - c = (1 - alpha) * (p - c) + ((r - (a + b)) + (a - alpha * c) + (b - beta * p)
                   + (beta - (1 - alpha)) * p)"
    by (simp add: algebra_simps)
  have main: "\<bar>r - c\<bar> \<le> \<bar>(1 - alpha) * (p - c)\<bar> + (8 * (eps * M) + 4 * eta)"
    using e1 e2 e3 e4p unfolding split by linarith
  have t1: "\<bar>(1 - alpha) * (p - c)\<bar> = (1 - alpha) * \<bar>p - c\<bar>"
    using a1 by (simp add: abs_mult)
  have "8 * eps = 2 powi (- 50)" by (simp add: eps_def power_int_minus)
  then have t2: "8 * (eps * M) = 2 powi (- 50) * M" by (simp only: mult.assoc[symmetric])
  have t3: "4 * eta = 2 powi (MIN_EXP - MANT_BITS + 1)"
  proof -
    have "2 powi (MIN_EXP - MANT_BITS + 1) = 2 powi 2 * (2::real) powi (MIN_EXP - MANT_BITS - 1)"
      by (rule powi_split) simp
    then show ?thesis by (simp add: eta_def)
  qed
  have t4: "r = ema c p alpha" by (simp add: r_def a_def b_def beta_def ema_def)
  have "\<bar>ema c p alpha - c\<bar>
          \<le> (1 - alpha) * \<bar>p - c\<bar> + (2 powi (- 50) * M + 2 powi (MIN_EXP - MANT_BITS + 1))"
    using main unfolding t1 t2 t3 t4 .
  then show ?thesis unfolding M_def by (simp only: add.assoc)
qed

text \<open>
  The doubles nearest to 3/10 and to 1/5, and the moving average of 3 and 3 with each
  as the smoothing factor.
\<close>

lemma fl_three_tenths: "fl (3 / 10) = 5404319552844595 / 2 ^ 54"
  by (subst fl_eval[where e = "- 2"]) (simp_all add: MIN_EXP_def MANT_BITS_def rne_def)


lemma ema_default_at_3: "ema 3 3 (fl (3 / 10)) = 3 - 2 powi (- 51)"
proof -
  have a: "fl (5404319552844595 / 2 ^ 54 * 3) = 2026619832316723 / 2 ^ 51"
    by (subst fl_eval[where e = "- 1"]) (simp_all add: MIN_EXP_def MANT_BITS_def rne_def)
  have b: "fl (1 - 5404319552844595 / 2 ^ 54) = 3152519739159347 / 2 ^ 52"
    by (subst fl_eval[where e = "- 1"]) (simp_all add: MIN_EXP_def MANT_BITS_def rne_def)
  have c: "fl (3152519739159347 / 2 ^ 52 * 3) = 1182194902184755 / 2 ^ 49"
    by (subst fl_eval[where e = 1]) (simp_all add: MIN_EXP_def MANT_BITS_def rne_def)
  have d: "fl (2026619832316723 / 2 ^ 51 + 1182194902184755 / 2 ^ 49) = 6755399441055743 / 2 ^ 51"
    by (subst fl_eval[where e = 1]) (simp_all add: MIN_EXP_def MANT_BITS_def rne_def)
  show ?thesis unfolding ema_def fl_three_tenths a b c d by simp
qed

lemma ema_default_stays: "ema 3 (3 - 2 powi (- 51)) (fl (3 / 10)) = 3 - 2 powi (- 51)"
proof -
  have a: "fl (5404319552844595 / 2 ^ 54 * 3) = 2026619832316723 / 2 ^ 51"
    by (subst fl_eval[where e = "- 1"]) (simp_all add: MIN_EXP_def MANT_BITS_def rne_def)
  have b: "fl (1 - 5404319552844595 / 2 ^ 54) = 3152519739159347 / 2 ^ 52"
    by (subst fl_eval[where e = "- 1"]) (simp_all add: MIN_EXP_def MANT_BITS_def rne_def)
  have c: "fl (3152519739159347 / 2 ^ 52 * (3 - 2 powi (- 51))) = 1182194902184755 / 2 ^ 49"
    by (subst fl_eval[where e = 1]) (simp_all add: MIN_EXP_def MANT_BITS_def rne_def)
  have d: "fl (2026619832316723 / 2 ^ 51 + 1182194902184755 / 2 ^ 49) = 6755399441055743 / 2 ^ 51"
    by (subst fl_eval[where e = 1]) (simp_all add: MIN_EXP_def MANT_BITS_def rne_def)
  show ?thesis unfolding ema_def fl_three_tenths a b c d by simp
qed


subsection \<open>Head pose tracker\<close>

text \<open>
  Claim C9. \<^verbatim>\<open>update\<close> returns no pose when the landmark array is absent or has fewer
  than 468 points, and leaves the tracker as it was; so the next call behaves as if
  the failed call had not happened, smoothing against the pose stored before it.
\<close>

theorem update_insufficient_landmarks:
  assumes "landmarks = None \<or> (\<exists>lms. landmarks = Some lms \<and> length lms < 468)"
  shows "update t cal now landmarks = (None, t)
     \<and> update (snd (update t cal now landmarks)) cal' now' landmarks' = update t cal' now' landmarks'"
proof -
  have "update t cal now landmarks = (None, t)"
    using assms by (auto simp: update_def)
  then show ?thesis by simp
qed

theorem update_insufficient_landmarks_witness:
  "update (newHeadPoseTracker NoArg) DEFAULT_CALIBRATION 5
      (Some (replicate 467 \<lparr>lm_x = 0, lm_y = 0, lm_z = 0\<rparr>))
     = (None, newHeadPoseTracker NoArg)"
  using update_insufficient_landmarks
    [of "Some (replicate 467 \<lparr>lm_x = 0, lm_y = 0, lm_z = 0\<rparr>)"
        "newHeadPoseTracker NoArg" DEFAULT_CALIBRATION 5]
  by simp

text \<open>The moving average, and what a successful \<^verbatim>\<open>update\<close> returns and stores.\<close>

lemma rawPose_clock:
  "pose_x (rawPose cfg now lms) = pose_x (rawPose cfg now' lms)"
  "pose_y (rawPose cfg now lms) = pose_y (rawPose cfg now' lms)"
  "pose_z (rawPose cfg now lms) = pose_z (rawPose cfg now' lms)"
  "interOcularPx (rawPose cfg now lms) = interOcularPx (rawPose cfg now' lms)"
  "timestamp (rawPose cfg now lms) = now"
  by (simp_all add: rawPose_def Let_def)

lemma update_ok:
  assumes "468 \<le> length lms"
  shows "update t cal now (Some lms) =
     (let smoothed = smooth (smoothingFactor (config t)) (previousPose t) (rawPose (config t) now lms);
          world = headPoseToWorldPosition smoothed (screenWidthCm cal) (screenHeightCm cal) (viewingDistanceCm cal)
      in (Some (HeadPose.extend smoothed \<lparr>worldX = fst world, worldY = fst (snd world), worldZ = snd (snd world)\<rparr>),
          t\<lparr>previousPose := Some smoothed\<rparr>))"
  using assms by (simp add: update_def Let_def)

lemma extend_fields:
  "pose_x (HeadPose.extend p e) = pose_x p"
  "pose_y (HeadPose.extend p e) = pose_y p"
  "pose_z (HeadPose.extend p e) = pose_z p"
  "interOcularPx (HeadPose.extend p e) = interOcularPx p"
  "timestamp (HeadPose.extend p e) = timestamp p"
  "HeadPose.truncate (HeadPose.extend p e) = p"
  by (simp_all add: HeadPose.extend_def HeadPose.truncate_def)

lemma config_update: "config (snd (update t cal now lms)) = config t"
  by (auto simp: update_def Let_def split: option.splits)

lemma config_feed: "config (feed t cal clock lms n) = config t"
  by (induction n) (simp_all add: config_update)

lemma previous_update:
  "468 \<le> length lms \<Longrightarrow> previousPose (snd (update t cal now (Some lms)))
     = Some (smooth (smoothingFactor (config t)) (previousPose t) (rawPose (config t) now lms))"
  by (simp add: update_ok Let_def)

lemma returned_update:
  "468 \<le> length lms \<Longrightarrow> map_option HeadPose.truncate (fst (update t cal now (Some lms)))
     = Some (smooth (smoothingFactor (config t)) (previousPose t) (rawPose (config t) now lms))"
  by (simp add: update_ok Let_def extend_fields)

lemma smooth_Some_fields:
  "pose_x (smooth a (Some p) raw) = ema (pose_x raw) (pose_x p) a"
  "pose_y (smooth a (Some p) raw) = ema (pose_y raw) (pose_y p) a"
  "pose_z (smooth a (Some p) raw) = ema (pose_z raw) (pose_z p) a"
  "interOcularPx (smooth a (Some p) raw) = ema (interOcularPx raw) (interOcularPx p) a"
  "timestamp (smooth a (Some p) raw) = timestamp raw"
  by (simp_all add: smooth_def)

lemma smooth_None: "smooth a None raw = raw"
  by (simp add: smooth_def)

lemma fst_updates_Cons:
  "fst (updates t ((cal, now, lms) # rest))
     = fst (update t cal now lms) # fst (updates (snd (update t cal now lms)) rest)"
  by (simp add: split_def Let_def)

lemma fst_updates_Nil: "fst (updates t []) = []"
  by simp

lemma returned_z:
  "468 \<le> length lms \<Longrightarrow> map_option pose_z (fst (update t cal now (Some lms)))
     = Some (pose_z (smooth (smoothingFactor (config t)) (previousPose t) (rawPose (config t) now lms)))"
  by (simp add: update_ok Let_def extend_fields)


lemma MIN_VALUE_twice: "2 powi (MIN_EXP - MANT_BITS + 1) = 2 * MIN_VALUE"
proof -
  have "2 powi (MIN_EXP - MANT_BITS + 1) = 2 powi 1 * (2::real) powi (MIN_EXP - MANT_BITS)"
    by (rule powi_split) simp
  then show ?thesis by (simp add: MIN_VALUE_def)
qed

lemma ema_deviation:
  assumes "0 \<le> a" "a \<le> 1"
  shows "\<bar>ema cur prev a - cur\<bar>
           \<le> (1 - a) * \<bar>prev - cur\<bar> + 2 powi (- 50) * max \<bar>cur\<bar> \<bar>prev\<bar> + 2 * MIN_VALUE"
  using ema_contraction[OF assms, of cur prev] by (simp only: MIN_VALUE_twice)

lemma feed_stored:
  assumes len: "468 \<le> length lms" and prev: "previousPose t = Some p"
  shows "\<exists>q. previousPose (feed t cal clock lms n) = Some q"
  by (cases n) (use len prev in \<open>simp_all add: previous_update config_feed\<close>)

lemma feed_deviation:
  assumes len: "468 \<le> length lms" and prev: "previousPose t = Some p"
    and a0: "0 \<le> smoothingFactor (config t)" and a1: "smoothingFactor (config t) \<le> 1"
  shows "\<exists>q q'. previousPose (feed t cal clock lms n) = Some q
     \<and> previousPose (feed t cal clock lms (Suc n)) = Some q'
     \<and> \<bar>pose_x q' - pose_x (rawPose (config t) now lms)\<bar>
         \<le> (1 - smoothingFactor (config t)) * \<bar>pose_x q - pose_x (rawPose (config t) now lms)\<bar>
           + 2 powi (- 50) * max \<bar>pose_x (rawPose (config t) now lms)\<bar> \<bar>pose_x q\<bar> + 2 * MIN_VALUE
     \<and> \<bar>pose_y q' - pose_y (rawPose (config t) now lms)\<bar>
         \<le> (1 - smoothingFactor (config t)) * \<bar>pose_y q - pose_y (rawPose (config t) now lms)\<bar>
           + 2 powi (- 50) * max \<bar>pose_y (rawPose (config t) now lms)\<bar> \<bar>pose_y q\<bar> + 2 * MIN_VALUE
     \<and> \<bar>pose_z q' - pose_z (rawPose (config t) now lms)\<bar>
         \<le> (1 - smoothingFactor (config t)) * \<bar>pose_z q - pose_z (rawPose (config t) now lms)\<bar>
           + 2 powi (- 50) * max \<bar>pose_z (rawPose (config t) now lms)\<bar> \<bar>pose_z q\<bar> + 2 * MIN_VALUE
     \<and> \<bar>interOcularPx q' - interOcularPx (rawPose (config t) now lms)\<bar>
         \<le> (1 - smoothingFactor (config t)) * \<bar>interOcularPx q - interOcularPx (rawPose (config t) now lms)\<bar>
           + 2 powi (- 50) * max \<bar>interOcularPx (rawPose (config t) now lms)\<bar> \<bar>interOcularPx q\<bar>
           + 2 * MIN_VALUE"
proof -
  obtain q where q: "previousPose (feed t cal clock lms n) = Some q"
    using feed_stored[OF len prev] by blast
  let ?q' = "smooth (smoothingFactor (config t)) (Some q) (rawPose (config t) (clock n) lms)"
  have st: "previousPose (feed t cal clock lms (Suc n)) = Some ?q'"
    using len q by (simp add: previous_update config_feed)
  have x: "pose_x ?q' = ema (pose_x (rawPose (config t) now lms)) (pose_x q) (smoothingFactor (config t))"
    by (simp add: smooth_Some_fields rawPose_clock(1)[of _ "clock n" _ now])
  have y: "pose_y ?q' = ema (pose_y (rawPose (config t) now lms)) (pose_y q) (smoothingFactor (config t))"
    by (simp add: smooth_Some_fields rawPose_clock(2)[of _ "clock n" _ now])
  have z: "pose_z ?q' = ema (pose_z (rawPose (config t) now lms)) (pose_z q) (smoothingFactor (config t))"
    by (simp add: smooth_Some_fields rawPose_clock(3)[of _ "clock n" _ now])
  have i: "interOcularPx ?q' = ema (interOcularPx (rawPose (config t) now lms)) (interOcularPx q)
             (smoothingFactor (config t))"
    by (simp add: smooth_Some_fields rawPose_clock(4)[of _ "clock n" _ now])
  show ?thesis
    apply (rule exI[of _ q], rule exI[of _ ?q'])
    apply (intro conjI q st)
       apply (simp_all only: x y z i ema_deviation[OF a0 a1])
    done
qed

lemma nth_zeroLandmarks: "i < 468 \<Longrightarrow> zeroLandmarks ! i = \<lparr>lm_x = 0, lm_y = 0, lm_z = 0\<rparr>"
  by (simp add: zeroLandmarks_def)

lemma rawPose_zeroLandmarks:
  "rawPose cfg now zeroLandmarks =
     \<lparr>pose_x = clamp 0 (fst (clampX cfg)) (snd (clampX cfg)),
      pose_y = clamp 0 (fst (clampY cfg)) (snd (clampY cfg)),
      pose_z = clamp 0 (fst (clampZ cfg)) (snd (clampZ cfg)),
      interOcularPx = 0, timestamp = now\<rparr>"
  by (simp add: rawPose_def Let_def nth_zeroLandmarks LEFT_EYE_INNER_def RIGHT_EYE_INNER_def
      LEFT_EYE_OUTER_def RIGHT_EYE_OUTER_def NOSE_TIP_def)

lemma length_zeroLandmarks: "length zeroLandmarks = 468"
  by (simp add: zeroLandmarks_def)

lemma length_closeFace: "length closeFace = 468"
  by (simp add: closeFace_def)

lemma rawPose_closeFace:
  "rawPose cfg now closeFace =
     \<lparr>pose_x = clamp (1 / 2) (fst (clampX cfg)) (snd (clampX cfg)),
      pose_y = clamp (1 / 2) (fst (clampY cfg)) (snd (clampY cfg)),
      pose_z = clamp 10 (fst (clampZ cfg)) (snd (clampZ cfg)),
      interOcularPx = 1, timestamp = now\<rparr>"
  by (simp add: rawPose_def Let_def closeFace_def LEFT_EYE_INNER_def RIGHT_EYE_INNER_def
      LEFT_EYE_OUTER_def RIGHT_EYE_OUTER_def NOSE_TIP_def)

lemma default_factor: "0 < fl (3 / 10)" "fl (3 / 10) \<le> 1" "fl (3 / 10) \<le> 3" "1 / 4 \<le> fl (3 / 10)"
  by (simp_all add: fl_three_tenths)

lemma rawPose_closeFace_default:
  "rawPose DEFAULT_CONFIG now closeFace =
     \<lparr>pose_x = 1 / 2, pose_y = 1 / 2, pose_z = 3, interOcularPx = 1, timestamp = now\<rparr>"
  using default_factor(3) by (simp add: rawPose_closeFace DEFAULT_CONFIG_def clamp_def)

lemma feed_Suc_previous:
  "468 \<le> length lms \<Longrightarrow> previousPose (feed t cal clock lms (Suc n))
     = Some (smooth (smoothingFactor (config t)) (previousPose (feed t cal clock lms n))
               (rawPose (config t) (clock n) lms))"
  by (simp add: previous_update config_feed)

lemma feed_closeFace:
  assumes cfg: "config t = DEFAULT_CONFIG" and prev: "previousPose t = None"
  shows "\<exists>q. previousPose (feed t cal clock closeFace (Suc (Suc n))) = Some q
           \<and> pose_z q = 3 - 2 powi (- 51)"
proof (induction n)
  case 0
  have len: "468 \<le> length closeFace" by (simp add: length_closeFace)
  have a: "smoothingFactor DEFAULT_CONFIG = fl (3 / 10)" by (simp add: DEFAULT_CONFIG_def)
  have one: "previousPose (feed t cal clock closeFace (Suc 0)) = Some (rawPose DEFAULT_CONFIG (clock 0) closeFace)"
    using prev cfg by (simp add: previous_update length_closeFace smooth_None)
  have "previousPose (feed t cal clock closeFace (Suc (Suc 0)))
          = Some (smooth (fl (3 / 10)) (Some (rawPose DEFAULT_CONFIG (clock 0) closeFace))
                    (rawPose DEFAULT_CONFIG (clock (Suc 0)) closeFace))"
    by (simp only: feed_Suc_previous[OF len, of t cal clock "Suc 0"] one cfg a)
  moreover have "pose_z (smooth (fl (3 / 10)) (Some (rawPose DEFAULT_CONFIG (clock 0) closeFace))
                    (rawPose DEFAULT_CONFIG (clock (Suc 0)) closeFace)) = 3 - 2 powi (- 51)"
    by (simp only: smooth_Some_fields rawPose_closeFace_default HeadPose.simps ema_default_at_3)
  ultimately show ?case by blast
next
  case (Suc n)
  have len: "468 \<le> length closeFace" by (simp add: length_closeFace)
  have a: "smoothingFactor DEFAULT_CONFIG = fl (3 / 10)" by (simp add: DEFAULT_CONFIG_def)
  from Suc obtain q where q: "previousPose (feed t cal clock closeFace (Suc (Suc n))) = Some q"
    and z: "pose_z q = 3 - 2 powi (- 51)" by blast
  have "previousPose (feed t cal clock closeFace (Suc (Suc (Suc n))))
          = Some (smooth (fl (3 / 10)) (Some q) (rawPose DEFAULT_CONFIG (clock (Suc (Suc n))) closeFace))"
    by (simp only: feed_Suc_previous[OF len, of t cal clock "Suc (Suc n)"] q cfg a)
  moreover have "pose_z (smooth (fl (3 / 10)) (Some q)
                    (rawPose DEFAULT_CONFIG (clock (Suc (Suc n))) closeFace)) = 3 - 2 powi (- 51)"
    by (simp only: smooth_Some_fields rawPose_closeFace_default HeadPose.simps z ema_default_stays)
  ultimately show ?case by blast
qed

text \<open>
  Claim C7 fails where it says that the raw value is the fixed point of the average
  and that the deviation from it shrinks by the factor \<open>1 - \<alpha>\<close> with every update.
  The source computes the average in double arithmetic, and \<open>fl \<alpha> + fl (1 - \<alpha>)\<close>
  need not be 1. With the default configuration (smoothing factor the double
  nearest to 0.3) and a face that fills the frame, the raw \<open>z\<close> is the top of its
  range, 3; the first update returns 3, the second returns
  \<open>3 - 2 ^ -51\<close> = 2.9999999999999996 although the stored and the raw value are both 3,
  and every later update returns \<open>3 - 2 ^ -51\<close> again: the deviation goes from 0 to
  \<open>2 ^ -51\<close> and stays there.
\<close>

theorem raw_value_not_fixed_point:
  "(\<forall>n. map_option pose_z (previousPose (feed (newHeadPoseTracker NoArg) DEFAULT_CALIBRATION
                                           real closeFace (Suc (Suc n))))
          = Some (3 - 2 powi (- 51)))
   \<and> map (map_option pose_z)
        (fst (updates (newHeadPoseTracker NoArg)
           [(DEFAULT_CALIBRATION, 0, Some closeFace), (DEFAULT_CALIBRATION, 16, Some closeFace),
            (DEFAULT_CALIBRATION, 33, Some closeFace)]))
      = [Some 3, Some (3 - 2 powi (- 51)), Some (3 - 2 powi (- 51))]
   \<and> pose_z (rawPose (config (newHeadPoseTracker NoArg)) 0 closeFace) = 3
   \<and> smoothingFactor (config (newHeadPoseTracker NoArg)) = fl (3 / 10)
   \<and> 0 < fl (3 / 10) \<and> fl (3 / 10) \<le> 1
   \<and> (3 - 2 powi (- 51) :: real) \<noteq> 3"
proof -
  let ?t = "newHeadPoseTracker NoArg"
  have cfg: "config ?t = DEFAULT_CONFIG" and prev: "previousPose ?t = None"
    by (simp_all add: newHeadPoseTracker_def)
  have a: "smoothingFactor DEFAULT_CONFIG = fl (3 / 10)" by (simp add: DEFAULT_CONFIG_def)
  have one: "map_option pose_z (previousPose (feed ?t DEFAULT_CALIBRATION real closeFace (Suc (Suc n))))
          = Some (3 - 2 powi (- 51))" for n
    using feed_closeFace[OF cfg prev, of DEFAULT_CALIBRATION real n] by auto
  have len: "468 \<le> length closeFace" by (simp add: length_closeFace)
  define t1 where "t1 = snd (update ?t DEFAULT_CALIBRATION 0 (Some closeFace))"
  define t2 where "t2 = snd (update t1 DEFAULT_CALIBRATION 16 (Some closeFace))"
  define q2 where "q2 = smooth (fl (3 / 10)) (Some (rawPose DEFAULT_CONFIG 0 closeFace))
                          (rawPose DEFAULT_CONFIG 16 closeFace)"
  have c1: "config t1 = DEFAULT_CONFIG" unfolding t1_def by (simp only: config_update cfg)
  have c2: "config t2 = DEFAULT_CONFIG" unfolding t2_def by (simp only: config_update c1)
  have p1: "previousPose t1 = Some (rawPose DEFAULT_CONFIG 0 closeFace)"
    unfolding t1_def by (simp only: previous_update[OF len] cfg prev smooth_None)
  have p2: "previousPose t2 = Some q2"
    unfolding t2_def q2_def by (simp only: previous_update[OF len] c1 p1 a)
  have z2: "pose_z q2 = 3 - 2 powi (- 51)"
    unfolding q2_def
    by (simp only: smooth_Some_fields rawPose_closeFace_default HeadPose.simps ema_default_at_3)
  have z3: "pose_z (smooth (fl (3 / 10)) (Some q2) (rawPose DEFAULT_CONFIG 33 closeFace))
              = 3 - 2 powi (- 51)"
    by (simp only: smooth_Some_fields rawPose_closeFace_default HeadPose.simps z2 ema_default_stays)
  have r1: "map_option pose_z (fst (update ?t DEFAULT_CALIBRATION 0 (Some closeFace))) = Some 3"
    by (simp only: returned_z[OF len] cfg prev smooth_None rawPose_closeFace_default HeadPose.simps)
  have r2: "map_option pose_z (fst (update t1 DEFAULT_CALIBRATION 16 (Some closeFace)))
              = Some (3 - 2 powi (- 51))"
    by (simp only: returned_z[OF len] c1 p1 a z2[unfolded q2_def])
  have r3: "map_option pose_z (fst (update t2 DEFAULT_CALIBRATION 33 (Some closeFace)))
              = Some (3 - 2 powi (- 51))"
    by (simp only: returned_z[OF len] c2 p2 a z3)
  have two: "map (map_option pose_z)
        (fst (updates ?t
           [(DEFAULT_CALIBRATION, 0, Some closeFace), (DEFAULT_CALIBRATION, 16, Some closeFace),
            (DEFAULT_CALIBRATION, 33, Some closeFace)]))
      = [Some 3, Some (3 - 2 powi (- 51)), Some (3 - 2 powi (- 51))]"
    by (simp only: fst_updates_Cons fst_updates_Nil list.map r1 r2[unfolded t1_def]
        r3[unfolded t2_def t1_def])
  have three: "pose_z (rawPose (config ?t) 0 closeFace) = 3"
    by (simp add: cfg rawPose_closeFace_default)
  have four: "(3 - 2 powi (- 51) :: real) \<noteq> 3" by simp
  show ?thesis
    by (intro conjI allI one two three four default_factor(1,2)) (simp add: cfg a)
qed

text \<open>
  Claim C7, amended. With a stored pose \<open>p\<close>, \<^verbatim>\<open>update\<close> returns for each of \<open>x\<close>, \<open>y\<close>,
  \<open>z\<close> and \<open>interOcularPx\<close> the value of \<open>a * current + (1 - a) * previous\<close> in double
  arithmetic, every operation rounded to the nearest double, \<open>a\<close> being the configured
  smoothing factor, and stores what it returns. After \<^verbatim>\<open>reset\<close> (and in a new tracker,
  which has no stored pose) the update returns the raw clamped sample. When \<open>a\<close> lies
  in \<open>[0, 1]\<close> and one landmark set is fed again and again, each update brings the
  deviation of a field from its raw value down to at most \<open>1 - a\<close> times the deviation
  before, plus a rounding error of at most \<open>2 ^ -50\<close> times the larger of the raw and
  the stored value, plus twice the least positive double; this for a raw and a stored
  value of magnitude at most \<open>2 ^ 1022\<close>, where no operation of the average overflows.
\<close>

theorem update_ema_smoothing:
  assumes len: "468 \<le> length lms" and prev: "previousPose t = Some p"
    and a: "a = smoothingFactor (config t)" and raw: "raw = rawPose (config t) now lms"
  shows "(\<exists>s. update t cal now (Some lms) = (Some s, t\<lparr>previousPose := Some (HeadPose.truncate s)\<rparr>)
            \<and> pose_x s = fl (fl (a * pose_x raw) + fl (fl (1 - a) * pose_x p))
            \<and> pose_y s = fl (fl (a * pose_y raw) + fl (fl (1 - a) * pose_y p))
            \<and> pose_z s = fl (fl (a * pose_z raw) + fl (fl (1 - a) * pose_z p))
            \<and> interOcularPx s = fl (fl (a * interOcularPx raw) + fl (fl (1 - a) * interOcularPx p)))
     \<and> (\<exists>s. update (reset t) cal now (Some lms) = (Some s, t\<lparr>previousPose := Some raw\<rparr>)
            \<and> HeadPose.truncate s = raw)
     \<and> previousPose (newHeadPoseTracker arg) = None
     \<and> (0 \<le> a \<and> a \<le> 1 \<longrightarrow>
          (\<forall>n. \<exists>q q'. previousPose (feed t cal clock lms n) = Some q
            \<and> previousPose (feed t cal clock lms (Suc n)) = Some q'
            \<and> (moderate (pose_x raw) \<and> moderate (pose_x q) \<longrightarrow>
                 \<bar>pose_x q' - pose_x raw\<bar>
                   \<le> (1 - a) * \<bar>pose_x q - pose_x raw\<bar> + 2 powi (- 50) * max \<bar>pose_x raw\<bar> \<bar>pose_x q\<bar>
                     + 2 * MIN_VALUE)
            \<and> (moderate (pose_y raw) \<and> moderate (pose_y q) \<longrightarrow>
                 \<bar>pose_y q' - pose_y raw\<bar>
                   \<le> (1 - a) * \<bar>pose_y q - pose_y raw\<bar> + 2 powi (- 50) * max \<bar>pose_y raw\<bar> \<bar>pose_y q\<bar>
                     + 2 * MIN_VALUE)
            \<and> (moderate (pose_z raw) \<and> moderate (pose_z q) \<longrightarrow>
                 \<bar>pose_z q' - pose_z raw\<bar>
                   \<le> (1 - a) * \<bar>pose_z q - pose_z raw\<bar> + 2 powi (- 50) * max \<bar>pose_z raw\<bar> \<bar>pose_z q\<bar>
                     + 2 * MIN_VALUE)
            \<and> (moderate (interOcularPx raw) \<and> moderate (interOcularPx q) \<longrightarrow>
                 \<bar>interOcularPx q' - interOcularPx raw\<bar>
                   \<le> (1 - a) * \<bar>interOcularPx q - interOcularPx raw\<bar>
                     + 2 powi (- 50) * max \<bar>interOcularPx raw\<bar> \<bar>interOcularPx q\<bar> + 2 * MIN_VALUE)))"
proof -
  have one: "\<exists>s. update t cal now (Some lms) = (Some s, t\<lparr>previousPose := Some (HeadPose.truncate s)\<rparr>)
            \<and> pose_x s = fl (fl (a * pose_x raw) + fl (fl (1 - a) * pose_x p))
            \<and> pose_y s = fl (fl (a * pose_y raw) + fl (fl (1 - a) * pose_y p))
            \<and> pose_z s = fl (fl (a * pose_z raw) + fl (fl (1 - a) * pose_z p))
            \<and> interOcularPx s = fl (fl (a * interOcularPx raw) + fl (fl (1 - a) * interOcularPx p))"
    using len prev a raw
    by (simp add: update_ok Let_def extend_fields smooth_Some_fields ema_def)
  have two: "\<exists>s. update (reset t) cal now (Some lms) = (Some s, t\<lparr>previousPose := Some raw\<rparr>)
            \<and> HeadPose.truncate s = raw"
    using len raw by (simp add: update_ok Let_def extend_fields smooth_None reset_def)
  have three: "previousPose (newHeadPoseTracker arg) = None"
    by (simp add: newHeadPoseTracker_def)
  have four: "\<exists>q q'. previousPose (feed t cal clock lms n) = Some q
            \<and> previousPose (feed t cal clock lms (Suc n)) = Some q'
            \<and> (moderate (pose_x raw) \<and> moderate (pose_x q) \<longrightarrow>
                 \<bar>pose_x q' - pose_x raw\<bar>
                   \<le> (1 - a) * \<bar>pose_x q - pose_x raw\<bar> + 2 powi (- 50) * max \<bar>pose_x raw\<bar> \<bar>pose_x q\<bar>
                     + 2 * MIN_VALUE)
            \<and> (moderate (pose_y raw) \<and> moderate (pose_y q) \<longrightarrow>
                 \<bar>pose_y q' - pose_y raw\<bar>
                   \<le> (1 - a) * \<bar>pose_y q - pose_y raw\<bar> + 2 powi (- 50) * max \<bar>pose_y raw\<bar> \<bar>pose_y q\<bar>
                     + 2 * MIN_VALUE)
            \<and> (moderate (pose_z raw) \<and> moderate (pose_z q) \<longrightarrow>
                 \<bar>pose_z q' - pose_z raw\<bar>
                   \<le> (1 - a) * \<bar>pose_z q - pose_z raw\<bar> + 2 powi (- 50) * max \<bar>pose_z raw\<bar> \<bar>pose_z q\<bar>
                     + 2 * MIN_VALUE)
            \<and> (moderate (interOcularPx raw) \<and> moderate (interOcularPx q) \<longrightarrow>
                 \<bar>interOcularPx q' - interOcularPx raw\<bar>
                   \<le> (1 - a) * \<bar>interOcularPx q - interOcularPx raw\<bar>
                     + 2 powi (- 50) * max \<bar>interOcularPx raw\<bar> \<bar>interOcularPx q\<bar> + 2 * MIN_VALUE)"
    if a01: "0 \<le> a" "a \<le> 1" for n
  proof -
    have a0: "0 \<le> smoothingFactor (config t)" and a1: "smoothingFactor (config t) \<le> 1"
      using a01 a by simp_all
    from feed_deviation[OF len prev a0 a1, of cal clock n now]
    obtain q q' where "previousPose (feed t cal clock lms n) = Some q"
      "previousPose (feed t cal clock lms (Suc n)) = Some q'"
      "\<bar>pose_x q' - pose_x raw\<bar>
         \<le> (1 - a) * \<bar>pose_x q - pose_x raw\<bar> + 2 powi (- 50) * max \<bar>pose_x raw\<bar> \<bar>pose_x q\<bar>
           + 2 * MIN_VALUE"
      "\<bar>pose_y q' - pose_y raw\<bar>
         \<le> (1 - a) * \<bar>pose_y q - pose_y raw\<bar> + 2 powi (- 50) * max \<bar>pose_y raw\<bar> \<bar>pose_y q\<bar>
           + 2 * MIN_VALUE"
      "\<bar>pose_z q' - pose_z raw\<bar>
         \<le> (1 - a) * \<bar>pose_z q - pose_z raw\<bar> + 2 powi (- 50) * max \<bar>pose_z raw\<bar> \<bar>pose_z q\<bar>
           + 2 * MIN_VALUE"
      "\<bar>interOcularPx q' - interOcularPx raw\<bar>
         \<le> (1 - a) * \<bar>interOcularPx q - interOcularPx raw\<bar>
           + 2 powi (- 50) * max \<bar>interOcularPx raw\<bar> \<bar>interOcularPx q\<bar> + 2 * MIN_VALUE"
      unfolding a raw by blast
    then show ?thesis by blast
  qed
  show ?thesis
    using one two three four by blast
qed

theorem update_ema_smoothing_witness:
  "(\<exists>s. update sampleTracker DEFAULT_CALIBRATION 7 (Some zeroLandmarks)
           = (Some s, sampleTracker\<lparr>previousPose := Some (HeadPose.truncate s)\<rparr>)
        \<and> pose_x s = fl (fl (fl (3 / 10) * 0) + fl (fl (1 - fl (3 / 10)) * 1))
        \<and> pose_z s = fl (fl (fl (3 / 10) * fl (3 / 10)) + fl (fl (1 - fl (3 / 10)) * 3)))
   \<and> (\<exists>q q'. previousPose (feed sampleTracker DEFAULT_CALIBRATION real zeroLandmarks 0) = Some q
        \<and> previousPose (feed sampleTracker DEFAULT_CALIBRATION real zeroLandmarks (Suc 0)) = Some q'
        \<and> pose_x q = 1
        \<and> \<bar>pose_x q' - 0\<bar>
            \<le> (1 - fl (3 / 10)) * \<bar>pose_x q - 0\<bar> + 2 powi (- 50) * max \<bar>0\<bar> \<bar>pose_x q\<bar> + 2 * MIN_VALUE)"
proof -
  have len: "468 \<le> length zeroLandmarks" by (simp add: length_zeroLandmarks)
  have prev: "previousPose sampleTracker = Some \<lparr>pose_x = 1, pose_y = 1, pose_z = 3, interOcularPx = 1, timestamp = 0\<rparr>"
    by (simp add: sampleTracker_def)
  have a: "fl (3 / 10) = smoothingFactor (config sampleTracker)"
    by (simp add: sampleTracker_def DEFAULT_CONFIG_def)
  have raw: "\<lparr>pose_x = 0, pose_y = 0, pose_z = fl (3 / 10), interOcularPx = 0, timestamp = 7\<rparr>
      = rawPose (config sampleTracker) 7 zeroLandmarks"
    using default_factor(1,3)
    by (simp add: rawPose_zeroLandmarks sampleTracker_def DEFAULT_CONFIG_def clamp_def)
  have r: "0 \<le> fl (3 / 10) \<and> fl (3 / 10) \<le> 1" using default_factor by simp
  have m: "moderate 0" "moderate 1"
    by (simp_all add: moderate_def MAX_EXP_def)
  note main = update_ema_smoothing[OF len prev a raw, of DEFAULT_CALIBRATION NoArg real,
      unfolded HeadPose.simps]
  have one: "\<exists>s. update sampleTracker DEFAULT_CALIBRATION 7 (Some zeroLandmarks)
           = (Some s, sampleTracker\<lparr>previousPose := Some (HeadPose.truncate s)\<rparr>)
        \<and> pose_x s = fl (fl (fl (3 / 10) * 0) + fl (fl (1 - fl (3 / 10)) * 1))
        \<and> pose_z s = fl (fl (fl (3 / 10) * fl (3 / 10)) + fl (fl (1 - fl (3 / 10)) * 3))"
    using main by blast
  from main r obtain q q' where q: "previousPose (feed sampleTracker DEFAULT_CALIBRATION real zeroLandmarks 0) = Some q"
    and q': "previousPose (feed sampleTracker DEFAULT_CALIBRATION real zeroLandmarks (Suc 0)) = Some q'"
    and dev: "moderate 0 \<and> moderate (pose_x q) \<longrightarrow>
                 \<bar>pose_x q' - 0\<bar>
                   \<le> (1 - fl (3 / 10)) * \<bar>pose_x q - 0\<bar> + 2 powi (- 50) * max \<bar>0\<bar> \<bar>pose_x q\<bar>
                     + 2 * MIN_VALUE"
    by blast
  have "q = \<lparr>pose_x = 1, pose_y = 1, pose_z = 3, interOcularPx = 1, timestamp = 0\<rparr>"
    using q prev by simp
  then have x: "pose_x q = 1" by simp
  have "\<bar>pose_x q' - 0\<bar>
          \<le> (1 - fl (3 / 10)) * \<bar>pose_x q - 0\<bar> + 2 powi (- 50) * max \<bar>0\<bar> \<bar>pose_x q\<bar> + 2 * MIN_VALUE"
    using dev m by (simp only: x) 
  then show ?thesis using one q q' x by blast
qed



lemma inRanges_extend: "inRanges cfg (HeadPose.extend p e) = inRanges cfg p"
  by (simp add: inRanges_def extend_fields)





text \<open>
  Claim C10, as stated, fails for a configuration whose ranges do not exclude it: with
  the \<open>x\<close> range \<open>[1, 0]\<close> and the \<open>z\<close> range \<open>[0, 3]\<close> (default smoothing factor) and a
  mesh whose points coincide, the returned \<open>x\<close> is outside its range and the returned
  \<open>z\<close> is 0, the divisor of the world conversion.
\<close>

lemma update_leaves_degenerate_ranges:
  "map_option pose_z (fst (update (newHeadPoseTracker (ConfigArg
       \<lparr>opt_smoothingFactor = None, opt_clampX = Some (1, 0), opt_clampY = None, opt_clampZ = Some (0, 3)\<rparr>))
       DEFAULT_CALIBRATION 0 (Some zeroLandmarks))) = Some 0
   \<and> map_option (inRanges (config (newHeadPoseTracker (ConfigArg
       \<lparr>opt_smoothingFactor = None, opt_clampX = Some (1, 0), opt_clampY = None, opt_clampZ = Some (0, 3)\<rparr>))))
        (fst (update (newHeadPoseTracker (ConfigArg
       \<lparr>opt_smoothingFactor = None, opt_clampX = Some (1, 0), opt_clampY = None, opt_clampZ = Some (0, 3)\<rparr>))
       DEFAULT_CALIBRATION 0 (Some zeroLandmarks))) = Some False
   \<and> smoothingFactor (config (newHeadPoseTracker (ConfigArg
       \<lparr>opt_smoothingFactor = None, opt_clampX = Some (1, 0), opt_clampY = None, opt_clampZ = Some (0, 3)\<rparr>))) = fl (3 / 10)"
  by (simp add: update_ok length_zeroLandmarks Let_def newHeadPoseTracker_def assignConfig_def
      DEFAULT_CONFIG_def smooth_def rawPose_zeroLandmarks extend_fields inRanges_extend inRanges_def clamp_def)





subsection \<open>Reconnecting socket\<close>

text \<open>Runs of the hook, and the state after \<open>k\<close> failed attempts.\<close>

lemma hookRun_append: "hookRun opts h (xs @ ys) = hookRun opts (hookRun opts h xs) ys"
  by (simp add: hookRun_def)

lemma retries_Suc: "retries (Suc k) = retries k @ [SocketCloses, TimerFires (Suc k)]"
  by (simp add: retries_def)

lemma onclose_schedules:
  assumes "autoReconnect opts" "\<not> intentionalCloseRef h"
  shows "ws_onclose opts h =
     h\<lparr>connected := False,
       reconnectAttemptRef := Suc (reconnectAttemptRef h),
       timers := timers h @ [(nextTimer h,
          min (reconnectDelay opts * 2 ^ reconnectAttemptRef h) (maxReconnectDelay opts))],
       nextTimer := Suc (nextTimer h),
       reconnectTimerRef := Some (nextTimer h)\<rparr>"
  using assms by (simp add: ws_onclose_def setTimeout_def Let_def)

lemma retries_state:
  assumes "autoReconnect opts"
  shows "hookRun opts (mounted opts) (retries k) =
     \<lparr>connected = False, wsRef = Some CONNECTING, reconnectAttemptRef = k,
      reconnectTimerRef = (if k = 0 then None else Some k), intentionalCloseRef = False,
      timers = [], nextTimer = Suc k\<rparr>"
proof (induction k)
  case 0
  then show ?case
    by (simp add: retries_def hookRun_def mounted_def connect_def initialHook_def)
next
  case (Suc k)
  show ?case
    using assms
    by (simp add: retries_Suc hookRun_append Suc.IH)
       (simp add: hookRun_def hookStep_def onclose_schedules clearTimeout_def connect_def)
qed

lemma kth_delay:
  assumes "autoReconnect opts"
  shows "pendingDelays (hookRun opts (mounted opts) (retries k @ [SocketCloses]))
     = [min (reconnectDelay opts * 2 ^ k) (maxReconnectDelay opts)]"
  using assms
  by (simp add: hookRun_append retries_state)
     (simp add: hookRun_def hookStep_def onclose_schedules pendingDelays_def)

text \<open>\<^verbatim>\<open>close()\<close>, and the invariant of runs without a manual \<^verbatim>\<open>reconnect()\<close>.\<close>

lemma close_effect:
  "intentionalCloseRef (close h)"
  "reconnectTimerRef (close h) = None"
  "reconnectTimerRef h = Some i \<Longrightarrow> i \<notin> fst ` set (timers (close h))"
  "set (timers (close h)) \<subseteq> set (timers h)"
  by (auto simp: close_def clearTimeout_def Let_def split: option.splits)

lemma onclose_intentional:
  "intentionalCloseRef h \<Longrightarrow> timers (ws_onclose opts h) = timers h
     \<and> reconnectAttemptRef (ws_onclose opts h) = reconnectAttemptRef h
     \<and> intentionalCloseRef (ws_onclose opts h)"
  by (simp add: ws_onclose_def Let_def)

lemma tracked_step:
  assumes "tracked h" "ev \<noteq> CallReconnect"
  shows "tracked (hookStep opts h ev)"
proof (cases ev)
  case SocketOpens
  then show ?thesis using assms
    by (auto simp: tracked_def hookStep_def ws_onopen_def)
next
  case SocketCloses
  then show ?thesis using assms
    by (auto simp: tracked_def hookStep_def ws_onclose_def setTimeout_def Let_def)
next
  case (TimerFires i)
  then show ?thesis using assms
    by (auto simp: tracked_def hookStep_def clearTimeout_def connect_def)
next
  case CallClose
  then show ?thesis using assms
    by (auto simp: tracked_def hookStep_def close_def clearTimeout_def Let_def split: option.splits)
next
  case CallReconnect
  then show ?thesis using assms by simp
qed

lemma tracked_run:
  assumes "tracked h" "CallReconnect \<notin> set evs"
  shows "tracked (hookRun opts h evs)"
  using assms
proof (induction evs arbitrary: h)
  case Nil
  then show ?case by (simp add: hookRun_def)
next
  case (Cons ev evs)
  have "tracked (hookStep opts h ev)"
    using Cons.prems by (intro tracked_step) auto
  then show ?case
    using Cons.IH[of "hookStep opts h ev"] Cons.prems(2) by (simp add: hookRun_def)
qed

lemma tracked_close: "tracked h \<Longrightarrow> timers (close h) = []"
  by (auto simp: tracked_def close_def clearTimeout_def Let_def split: option.splits)

lemma tracked_mounted: "tracked (mounted opts)"
  by (simp add: tracked_def mounted_def connect_def initialHook_def)

text \<open>
  Claim C6, as stated, fails when the option \<^verbatim>\<open>autoReconnect\<close> is off: an unexpected
  close (the intentional-close flag is not set) then schedules nothing and leaves the
  attempt counter as it is.
\<close>

theorem no_reconnect_without_autoReconnect:
  "pendingDelays (hookStep ((defaultOptions ''ws://host/ws/control'')\<lparr>autoReconnect := False\<rparr>)
       (mounted ((defaultOptions ''ws://host/ws/control'')\<lparr>autoReconnect := False\<rparr>)) SocketCloses) = []
   \<and> reconnectAttemptRef (hookStep ((defaultOptions ''ws://host/ws/control'')\<lparr>autoReconnect := False\<rparr>)
       (mounted ((defaultOptions ''ws://host/ws/control'')\<lparr>autoReconnect := False\<rparr>)) SocketCloses) = 0
   \<and> intentionalCloseRef (mounted ((defaultOptions ''ws://host/ws/control'')\<lparr>autoReconnect := False\<rparr>)) = False"
  by (simp add: hookStep_def mounted_def connect_def initialHook_def ws_onclose_def defaultOptions_def
      pendingDelays_def Let_def)

text \<open>
  Claim C6, amended. With \<^verbatim>\<open>autoReconnect\<close> on, a close that finds the
  intentional-close flag unset schedules \<^verbatim>\<open>connect\<close> after
  \<open>min (reconnectDelay * 2 ^ attempt) maxReconnectDelay\<close>, tracks the timeout and
  increments the attempt; an open resets the attempt to 0; after \<open>k\<close> failed attempts
  the next close schedules \<open>min (reconnectDelay * 2 ^ k) maxReconnectDelay\<close>, which
  for 1000 and 30000 is 1000, 2000, 4000, 8000, 16000 and then 30000. \<^verbatim>\<open>close()\<close> sets
  the flag and cancels the tracked timeout, and a close event that follows schedules
  nothing; in a run without a manual \<^verbatim>\<open>reconnect()\<close> no timeout is pending after
  \<^verbatim>\<open>close()\<close>, nor after the close event of the socket it closed.
\<close>

theorem reconnect_backoff:
  assumes "autoReconnect opts"
  shows "(\<not> intentionalCloseRef h \<longrightarrow> ws_onclose opts h =
            h\<lparr>connected := False,
              reconnectAttemptRef := Suc (reconnectAttemptRef h),
              timers := timers h @ [(nextTimer h,
                 min (reconnectDelay opts * 2 ^ reconnectAttemptRef h) (maxReconnectDelay opts))],
              nextTimer := Suc (nextTimer h),
              reconnectTimerRef := Some (nextTimer h)\<rparr>)
     \<and> reconnectAttemptRef (ws_onopen opts h) = 0
     \<and> pendingDelays (hookRun opts (mounted opts) (retries k @ [SocketCloses]))
          = [min (reconnectDelay opts * 2 ^ k) (maxReconnectDelay opts)]
     \<and> (reconnectDelay opts = 1000 \<and> maxReconnectDelay opts = 30000 \<longrightarrow>
          map (\<lambda>k. pendingDelays (hookRun opts (mounted opts) (retries k @ [SocketCloses]))) [0, 1, 2, 3, 4, 5, 6]
            = [[1000], [2000], [4000], [8000], [16000], [30000], [30000]])
     \<and> intentionalCloseRef (close h) \<and> reconnectTimerRef (close h) = None
     \<and> (\<forall>i. reconnectTimerRef h = Some i \<longrightarrow> i \<notin> fst ` set (timers (close h)))
     \<and> timers (ws_onclose opts (close h)) = timers (close h)
     \<and> (CallReconnect \<notin> set evs \<longrightarrow>
          pendingDelays (hookRun opts (mounted opts) (evs @ [CallClose])) = []
        \<and> pendingDelays (hookRun opts (mounted opts) (evs @ [CallClose, SocketCloses])) = [])"
proof -
  have d: "pendingDelays (hookRun opts (mounted opts) (retries k @ [SocketCloses]))
          = [min (reconnectDelay opts * 2 ^ k) (maxReconnectDelay opts)]" for k
    using assms by (rule kth_delay)
  have run: "pendingDelays (hookRun opts (mounted opts) (evs @ [CallClose])) = []
        \<and> pendingDelays (hookRun opts (mounted opts) (evs @ [CallClose, SocketCloses])) = []"
    if "CallReconnect \<notin> set evs"
  proof -
    let ?h = "hookRun opts (mounted opts) evs"
    have t: "tracked ?h" using that tracked_mounted by (rule tracked_run[rotated])
    have c: "hookRun opts (mounted opts) (evs @ [CallClose]) = close ?h"
      by (simp add: hookRun_append) (simp add: hookRun_def hookStep_def)
    have e: "timers (close ?h) = []" using t by (rule tracked_close)
    have "timers (hookStep opts (close ?h) SocketCloses) = []"
      using e close_effect(1)[of ?h] by (simp add: hookStep_def onclose_intentional)
    moreover have "hookRun opts (mounted opts) (evs @ [CallClose, SocketCloses])
        = hookStep opts (close ?h) SocketCloses"
      by (simp add: hookRun_append) (simp add: hookRun_def hookStep_def)
    ultimately show ?thesis using c e by (simp add: pendingDelays_def)
  qed
  show ?thesis
    using assms d run close_effect(1,2,3)[of h] onclose_intentional[of "close h" opts]
    by (auto simp: onclose_schedules ws_onopen_def)
qed

theorem reconnect_backoff_witness:
  "map (\<lambda>k. pendingDelays (hookRun (defaultOptions ''ws://host/ws/control'')
               (mounted (defaultOptions ''ws://host/ws/control'')) (retries k @ [SocketCloses])))
       [0, 1, 2, 3, 4, 5, 6]
     = [[1000], [2000], [4000], [8000], [16000], [30000], [30000]]
   \<and> pendingDelays (hookRun (defaultOptions ''ws://host/ws/control'')
        (mounted (defaultOptions ''ws://host/ws/control''))
        ([SocketCloses, TimerFires 1, SocketCloses] @ [CallClose])) = []
   \<and> timers (ws_onclose (defaultOptions ''ws://host/ws/control'')
        (mounted (defaultOptions ''ws://host/ws/control''))) = [(1, 1000)]
   \<and> reconnectAttemptRef (ws_onclose (defaultOptions ''ws://host/ws/control'')
        (mounted (defaultOptions ''ws://host/ws/control''))) = 1
   \<and> reconnectTimerRef (ws_onclose (defaultOptions ''ws://host/ws/control'')
        (mounted (defaultOptions ''ws://host/ws/control''))) = Some 1
   \<and> 1 \<notin> fst ` set (timers (close (ws_onclose (defaultOptions ''ws://host/ws/control'')
        (mounted (defaultOptions ''ws://host/ws/control'')))))"
proof -
  let ?o = "defaultOptions ''ws://host/ws/control''"
  have a: "autoReconnect ?o"
    by (simp add: defaultOptions_def)
  have f: "\<not> intentionalCloseRef (mounted ?o)"
    by (simp add: mounted_def connect_def initialHook_def)
  have f': "\<not> intentionalCloseRef (ws_onclose ?o (mounted ?o))"
    by (simp add: ws_onclose_def setTimeout_def Let_def mounted_def connect_def initialHook_def)
  note r1 = reconnect_backoff[OF a, where h = "mounted ?o"
      and evs = "[SocketCloses, TimerFires 1, SocketCloses]" and k = 0]
  note r2 = reconnect_backoff[OF a, where h = "ws_onclose ?o (mounted ?o)"
      and evs = "[]" and k = 0]
  have eq: "ws_onclose ?o (mounted ?o) =
      (mounted ?o)\<lparr>connected := False, reconnectAttemptRef := Suc (reconnectAttemptRef (mounted ?o)),
         timers := timers (mounted ?o) @ [(nextTimer (mounted ?o),
            min (reconnectDelay ?o * 2 ^ reconnectAttemptRef (mounted ?o)) (maxReconnectDelay ?o))],
         nextTimer := Suc (nextTimer (mounted ?o)),
         reconnectTimerRef := Some (nextTimer (mounted ?o))\<rparr>"
    using r1 f by blast
  have t: "timers (ws_onclose ?o (mounted ?o)) = [(1, 1000)]"
      "reconnectAttemptRef (ws_onclose ?o (mounted ?o)) = 1"
      "reconnectTimerRef (ws_onclose ?o (mounted ?o)) = Some 1"
    by (simp_all add: eq) (simp_all add: mounted_def connect_def initialHook_def defaultOptions_def)
  have c: "1 \<notin> fst ` set (timers (close (ws_onclose ?o (mounted ?o))))"
    using r2 t(3) by blast
  have d: "map (\<lambda>k. pendingDelays (hookRun ?o (mounted ?o) (retries k @ [SocketCloses])))
       [0, 1, 2, 3, 4, 5, 6]
     = [[1000], [2000], [4000], [8000], [16000], [30000], [30000]]"
    "pendingDelays (hookRun ?o (mounted ?o) ([SocketCloses, TimerFires 1, SocketCloses] @ [CallClose])) = []"
    using r1 by (simp_all add: defaultOptions_def)
  show ?thesis
    using d t c by blast
qed

subsection \<open>Video texture manager\<close>

text \<open>The two parts of \<^verbatim>\<open>processFrame\<close>, case by case, and the two dispose calls.\<close>

lemma entryOf_getTexture:
  "entryOf (getTexture m sid) sid = Some (case entryOf m sid of Some a \<Rightarrow> a | None \<Rightarrow> allocated m)"
  by (auto simp: getTexture_def entryOf_def map_add_def split: option.splits)

lemma getTexture_present: "entryOf m sid = Some a \<Longrightarrow> getTexture m sid = m"
  by (simp add: getTexture_def)

lemma getTexture_absent:
  "entryOf m sid = None \<Longrightarrow> getTexture m sid =
     m\<lparr>textures := textures m @ [(sid, allocated m)],
       objects := (objects m)(allocated m := newEntry),
       allocated := Suc (allocated m)\<rparr>"
  by (simp add: getTexture_def)

lemma begin_header_rejects:
  assumes "length data < HEADER_SIZE \<or> getUint8 data 0 \<noteq> 1
           \<or> length data < HEADER_SIZE + getUint32 data 17"
  shows "processFrame_begin m sid data = (None, m)"
  using assms by (auto simp: processFrame_begin_def Let_def)

lemma begin_accepted_header:
  assumes "HEADER_SIZE \<le> length data" "getUint8 data 0 = 1"
          "HEADER_SIZE + getUint32 data 17 \<le> length data"
  shows "processFrame_begin m sid data =
     (let m1 = getTexture m sid;
          a = (case entryOf m sid of Some a \<Rightarrow> a | None \<Rightarrow> allocated m);
          entry = objects m1 a
      in if f64_le (getFloat64 data 1) (lastTimestamp entry) then (None, m1)
         else if processing entry then (None, m1)
         else (Some \<lparr>d_sourceId = sid, d_entry = a, d_timestamp = getFloat64 data 1,
                      d_width = getUint32 data 9, d_height = getUint32 data 13,
                      d_dataLen = getUint32 data 17,
                      d_jpegData = take (getUint32 data 17) (drop HEADER_SIZE data)\<rparr>,
               m1\<lparr>objects := (objects m1)(a := entry\<lparr>processing := True\<rparr>)\<rparr>))"
  using assms by (simp add: processFrame_begin_def Let_def entryOf_getTexture)

lemma begin_cases:
  obtains (unchanged) "processFrame_begin m sid data = (None, m)"
  | (created) "processFrame_begin m sid data = (None, getTexture m sid)" "entryOf m sid = None"
  | (started) d a where
      "processFrame_begin m sid data =
         (Some d, (getTexture m sid)\<lparr>objects := (objects (getTexture m sid))
              (a := (objects (getTexture m sid) a)\<lparr>processing := True\<rparr>)\<rparr>)"
      "entryOf (getTexture m sid) sid = Some a" "d_entry d = a" "d_sourceId d = sid"
      "d_timestamp d = getFloat64 data 1"
      "\<not> processing (objects (getTexture m sid) a)"
      "\<not> f64_le (d_timestamp d) (lastTimestamp (objects (getTexture m sid) a))"
proof (cases "length data < HEADER_SIZE \<or> getUint8 data 0 \<noteq> 1
           \<or> length data < HEADER_SIZE + getUint32 data 17")
  case True
  then show ?thesis using begin_header_rejects unchanged by blast
next
  case False
  then have h: "HEADER_SIZE \<le> length data" "getUint8 data 0 = 1"
          "HEADER_SIZE + getUint32 data 17 \<le> length data" by auto
  let ?a = "case entryOf m sid of Some a \<Rightarrow> a | None \<Rightarrow> allocated m"
  let ?m1 = "getTexture m sid"
  show ?thesis
  proof (cases "f64_le (getFloat64 data 1) (lastTimestamp (objects ?m1 ?a)) \<or> processing (objects ?m1 ?a)")
    case True
    then have r: "processFrame_begin m sid data = (None, ?m1)"
      by (auto simp: begin_accepted_header[OF h] Let_def)
    show ?thesis
    proof (cases "entryOf m sid")
      case None
      then show ?thesis using r created by blast
    next
      case (Some a)
      then show ?thesis using r unchanged by (simp add: getTexture_present)
    qed
  next
    case False
    then show ?thesis
      using started[of _ ?a] by (simp add: begin_accepted_header[OF h] Let_def entryOf_getTexture)
  qed
qed

lemma begin_busy:
  assumes "entryOf m sid = Some a" "processing (objects m a)"
  shows "processFrame_begin m sid data = (None, m)"
  using assms by (simp add: processFrame_begin_def Let_def getTexture_present)

lemma resume_failed:
  "processFrame_resume m d None
     = (False, m\<lparr>objects := (objects m)(d_entry d := (objects m (d_entry d))\<lparr>processing := False\<rparr>)\<rparr>)"
  by (simp add: processFrame_resume_def)

lemma resume_entry:
  "\<exists>e'. processFrame_resume m d decoded = (decoded \<noteq> None, m\<lparr>objects := (objects m)(d_entry d := e')\<rparr>)
     \<and> \<not> processing e'
     \<and> (decoded = None \<longrightarrow> e' = (objects m (d_entry d))\<lparr>processing := False\<rparr>)
     \<and> (decoded \<noteq> None \<longrightarrow> lastTimestamp e' = d_timestamp d
            \<and> texture_image e' = Bitmap (the decoded)
            \<and> currentWidth e' = d_width d \<and> currentHeight e' = d_height d)
     \<and> (decoded = None \<longrightarrow> lastTimestamp e' = lastTimestamp (objects m (d_entry d)))"
  by (cases decoded) (auto simp: processFrame_resume_def Let_def)

lemma disposeTexture_fields:
  "processing (objects (disposeTexture m sid) a) = processing (objects m a)"
  "lastTimestamp (objects (disposeTexture m sid) a) = lastTimestamp (objects m a)"
  "allocated (disposeTexture m sid) = allocated m"
  "set (textures (disposeTexture m sid)) \<subseteq> set (textures m)"
  by (auto simp: disposeTexture_def disposeEntry_def split: option.splits)

lemma disposeAll_objects:
  "processing (foldl (\<lambda>h kv. h(snd kv := disposeEntry (h (snd kv)))) h0 xs a) = processing (h0 a)
   \<and> lastTimestamp (foldl (\<lambda>h kv. h(snd kv := disposeEntry (h (snd kv)))) h0 xs a) = lastTimestamp (h0 a)"
  by (induction xs arbitrary: h0) (simp_all add: disposeEntry_def)

lemma disposeAll_fields:
  "processing (objects (disposeAll m) a) = processing (objects m a)"
  "lastTimestamp (objects (disposeAll m) a) = lastTimestamp (objects m a)"
  "allocated (disposeAll m) = allocated m"
  "textures (disposeAll m) = []"
  by (simp_all add: disposeAll_def disposeAll_objects)

text \<open>The linkage invariant holds of the empty loop and every step keeps it.\<close>

lemma wellLinked_empty: "wellLinked emptyLoop"
  by (simp add: wellLinked_def emptyLoop_def emptyManager_def newEntry_def)

lemma distinct_remove_nth:
  assumes "distinct (map f xs)" "i < length xs"
  shows "distinct (map f (take i xs @ drop (Suc i) xs))"
    and "f ` set (take i xs @ drop (Suc i) xs) = f ` set xs - {f (xs ! i)}"
proof -
  have xs: "xs = take i xs @ (xs ! i) # drop (Suc i) xs"
    using assms(2) by (simp add: id_take_nth_drop)
  have d: "distinct (map f (take i xs @ (xs ! i) # drop (Suc i) xs))"
    using assms(1) xs by simp
  show "distinct (map f (take i xs @ drop (Suc i) xs))"
    using d by auto
  have "f ` set xs = insert (f (xs ! i)) (f ` set (take i xs @ drop (Suc i) xs))"
    by (subst xs) auto
  moreover have "f (xs ! i) \<notin> f ` set (take i xs @ drop (Suc i) xs)"
    using d by auto
  ultimately show "f ` set (take i xs @ drop (Suc i) xs) = f ` set xs - {f (xs ! i)}"
    by auto
qed

lemma wellLinked_getTexture:
  assumes "wellLinked s"
  shows "wellLinked (s\<lparr>manager := getTexture (manager s) sid\<rparr>)"
proof (cases "entryOf (manager s) sid")
  case (Some a)
  then show ?thesis using assms by (simp add: getTexture_present)
next
  case None
  have fresh: "allocated (manager s) \<notin> d_entry ` set (inflight s)"
    using assms by (auto simp: wellLinked_def)
  then have "\<not> processing (objects (manager s) (allocated (manager s)))"
    using assms by (simp add: wellLinked_def)
  then show ?thesis
    using assms fresh
    by (auto simp: wellLinked_def getTexture_absent[OF None] newEntry_def less_Suc_eq)
qed

lemma step_frame_invariant:
  assumes inv: "wellLinked s"
  shows "wellLinked (snd (managerStep s (FrameArrives sid data)))"
proof (cases rule: begin_cases[of "manager s" sid data])
  case unchanged
  then show ?thesis using inv by (simp add: managerStep_def)
next
  case created
  then show ?thesis using wellLinked_getTexture[OF inv, of sid] by (simp add: managerStep_def)
next
  case (started d a)
  let ?s1 = "s\<lparr>manager := getTexture (manager s) sid\<rparr>"
  have inv1: "wellLinked ?s1" using inv by (rule wellLinked_getTexture)
  have fresh: "a \<notin> d_entry ` set (inflight s)"
    using inv1 started(6) by (simp add: wellLinked_def)
  have "(sid, a) \<in> set (textures (getTexture (manager s) sid))"
    using started(2) by (simp add: entryOf_def map_of_SomeD)
  then have lt: "a < allocated (getTexture (manager s) sid)"
    using inv1 by (auto simp: wellLinked_def)
  show ?thesis
    using inv1 fresh lt started(3)
    by (auto simp: managerStep_def started(1) wellLinked_def)
qed

lemma step_settle_invariant:
  assumes inv: "wellLinked s"
  shows "wellLinked (snd (managerStep s (DecodeSettles i decoded)))"
proof (cases "i < length (inflight s)")
  case False
  then show ?thesis using inv by (simp add: managerStep_def)
next
  case True
  let ?d = "inflight s ! i"
  let ?rest = "take i (inflight s) @ drop (Suc i) (inflight s)"
  obtain e' where r: "processFrame_resume (manager s) ?d decoded
        = (decoded \<noteq> None, (manager s)\<lparr>objects := (objects (manager s))(d_entry ?d := e')\<rparr>)"
     and np: "\<not> processing e'"
    using resume_entry[of "manager s" ?d decoded] by blast
  have dist: "distinct (map d_entry ?rest)"
    and img: "d_entry ` set ?rest = d_entry ` set (inflight s) - {d_entry ?d}"
    using distinct_remove_nth[of d_entry "inflight s" i] inv True
    by (simp_all add: wellLinked_def)
  have sub: "set ?rest \<subseteq> set (inflight s)"
    by (auto dest: in_set_takeD in_set_dropD)
  have st: "snd (managerStep s (DecodeSettles i decoded))
      = \<lparr>manager = (manager s)\<lparr>objects := (objects (manager s))(d_entry ?d := e')\<rparr>, inflight = ?rest\<rparr>"
    using True r by (simp add: managerStep_def Let_def)
  show ?thesis
    unfolding st wellLinked_def
  proof (intro conjI)
    show "distinct (map d_entry (inflight \<lparr>manager = (manager s)\<lparr>objects := (objects (manager s))(d_entry ?d := e')\<rparr>, inflight = ?rest\<rparr>))"
      using dist by simp
    show "\<forall>a. processing (objects (manager \<lparr>manager = (manager s)\<lparr>objects := (objects (manager s))(d_entry ?d := e')\<rparr>, inflight = ?rest\<rparr>) a)
        \<longleftrightarrow> a \<in> d_entry ` set (inflight \<lparr>manager = (manager s)\<lparr>objects := (objects (manager s))(d_entry ?d := e')\<rparr>, inflight = ?rest\<rparr>)"
      using inv img np by (auto simp: wellLinked_def)
    show "\<forall>d \<in> set (inflight \<lparr>manager = (manager s)\<lparr>objects := (objects (manager s))(d_entry ?d := e')\<rparr>, inflight = ?rest\<rparr>).
        d_entry d < allocated (manager \<lparr>manager = (manager s)\<lparr>objects := (objects (manager s))(d_entry ?d := e')\<rparr>, inflight = ?rest\<rparr>)"
      using inv sub by (auto simp: wellLinked_def)
    show "\<forall>kv \<in> set (textures (manager \<lparr>manager = (manager s)\<lparr>objects := (objects (manager s))(d_entry ?d := e')\<rparr>, inflight = ?rest\<rparr>)).
        snd kv < allocated (manager \<lparr>manager = (manager s)\<lparr>objects := (objects (manager s))(d_entry ?d := e')\<rparr>, inflight = ?rest\<rparr>)"
      using inv by (auto simp: wellLinked_def)
  qed
qed

lemma step_dispose_invariant:
  assumes inv: "wellLinked s"
  shows "wellLinked (snd (managerStep s (DisposeTexture sid)))"
    and "wellLinked (snd (managerStep s DisposeAll))"
  using inv disposeTexture_fields(4)[of "manager s" sid]
  by (auto simp: wellLinked_def managerStep_def disposeTexture_fields(1,3) disposeAll_fields)

lemma step_invariant: "wellLinked s \<Longrightarrow> wellLinked (snd (managerStep s ev))"
  by (cases ev) (simp_all add: step_frame_invariant step_settle_invariant step_dispose_invariant)

lemma run_invariant: "wellLinked s \<Longrightarrow> wellLinked (snd (managerRun s evs))"
proof (induction evs arbitrary: s)
  case Nil
  then show ?case by simp
next
  case (Cons ev evs)
  have "wellLinked (snd (managerStep s ev))"
    using Cons.prems by (rule step_invariant)
  then have "wellLinked (snd (managerRun (snd (managerStep s ev)) evs))"
    by (rule Cons.IH)
  then show ?case by (simp add: split_def Let_def)
qed


text \<open>The order of doubles that are numbers.\<close>

lemma f64_not_le: "a \<noteq> NaN \<Longrightarrow> b \<noteq> NaN \<Longrightarrow> \<not> f64_le a b \<Longrightarrow> f64_lt b a"
  by (cases a; cases b; simp)

lemma f64_le_lt_trans: "f64_le x l \<Longrightarrow> f64_lt l t \<Longrightarrow> f64_lt x t"
  by (cases x; cases l; cases t; simp)

lemma f64_lt_le: "f64_lt x t \<Longrightarrow> f64_le x t"
  by (cases x; cases t; simp)

lemma f64_le_refl: "t \<noteq> NaN \<Longrightarrow> f64_le t t"
  by (cases t; simp)

lemma f64_lt_not_le: "f64_lt l t \<Longrightarrow> \<not> f64_le t l"
  by (cases l; cases t; simp)

lemma appliedTo_append: "appliedTo a (xs @ ys) = appliedTo a xs @ appliedTo a ys"
  by (induction a xs rule: appliedTo.induct) simp_all

lemma appliedTo_snoc: "appliedTo a (as @ [x]) = appliedTo a as @ appliedTo a [x]"
  by (rule appliedTo_append)

lemma managerRun_snoc:
  "managerRun s (evs @ [ev]) =
     (fst (managerRun s evs) @ [fst (managerStep (snd (managerRun s evs)) ev)],
      snd (managerStep (snd (managerRun s evs)) ev))"
  by (induction evs arbitrary: s) (simp_all add: split_def Let_def)

text \<open>The ordering invariant, step by step.\<close>

lemma ordered_getTexture:
  assumes ord: "ordered s a as" and inv: "wellLinked s"
  shows "ordered (s\<lparr>manager := getTexture (manager s) sid\<rparr>) a as"
proof (cases "entryOf (manager s) sid")
  case (Some b)
  then show ?thesis using ord by (simp add: getTexture_present)
next
  case None
  have nofl: "\<forall>d \<in> set (inflight s). d_entry d \<noteq> allocated (manager s)"
    using inv by (auto simp: wellLinked_def)
  show ?thesis
  proof (cases "a = allocated (manager s)")
    case True
    then have "appliedTo a as = []" using ord by (simp add: ordered_def)
    then show ?thesis
      using True nofl by (simp add: ordered_def getTexture_absent[OF None] newEntry_def)
  next
    case False
    then show ?thesis
      using ord by (auto simp: ordered_def getTexture_absent[OF None])
  qed
qed

lemma ordered_frame:
  fixes s :: "'b Loop"
  assumes ord: "ordered s a as" and inv: "wellLinked s" and num: "getFloat64 data 1 \<noteq> NaN"
  shows "ordered (snd (managerStep s (FrameArrives sid data))) a
           (as @ [fst (managerStep s (FrameArrives sid data))])"
proof (cases rule: begin_cases[of "manager s" sid data])
  case unchanged
  then show ?thesis using ord by (simp add: managerStep_def appliedTo_snoc ordered_def)
next
  case created
  then show ?thesis
    using ordered_getTexture[OF ord inv, of sid]
    by (simp add: managerStep_def appliedTo_snoc ordered_def)
next
  case (started d b)
  let ?s1 = "s\<lparr>manager := getTexture (manager s) sid\<rparr>"
  have o1: "ordered ?s1 a as" using ord inv by (rule ordered_getTexture)
  have st: "managerStep s (FrameArrives sid data) =
      (Started sid, \<lparr>manager = (getTexture (manager s) sid)\<lparr>objects := (objects (getTexture (manager s) sid))
              (b := (objects (getTexture (manager s) sid) b)\<lparr>processing := True\<rparr>)\<rparr>,
            inflight = inflight s @ [d]\<rparr>)"
    by (simp add: managerStep_def started(1))
  show ?thesis
  proof (cases "a = b")
    case False
    then show ?thesis
      using o1 started(3) unfolding st by (auto simp: ordered_def appliedTo_snoc)
  next
    case True
    have last: "lastTimestamp (objects (getTexture (manager s) sid) b) \<noteq> NaN"
      using o1 True by (simp add: ordered_def)
    have "f64_lt (lastTimestamp (objects (getTexture (manager s) sid) b)) (d_timestamp d)"
      using f64_not_le[OF _ last started(7)] num started(5) by simp
    then show ?thesis
      using o1 True started(3,5) num unfolding st by (auto simp: ordered_def appliedTo_snoc)
  qed
qed

lemma ordered_settle:
  fixes s :: "'b Loop"
  assumes ord: "ordered s a as" and inv: "wellLinked s"
  shows "ordered (snd (managerStep s (DecodeSettles i decoded))) a
           (as @ [fst (managerStep s (DecodeSettles i decoded))])"
proof (cases "i < length (inflight s)")
  case False
  then have "managerStep s (DecodeSettles i decoded) = (Nothing, s)"
    by (simp add: managerStep_def)
  then show ?thesis using ord by (simp add: ordered_def appliedTo_snoc)
next
  case True
  let ?d = "inflight s ! i"
  let ?rest = "take i (inflight s) @ drop (Suc i) (inflight s)"
  obtain e' where r: "processFrame_resume (manager s) ?d decoded
        = (decoded \<noteq> None, (manager s)\<lparr>objects := (objects (manager s))(d_entry ?d := e')\<rparr>)"
     and ok: "decoded \<noteq> None \<longrightarrow> lastTimestamp e' = d_timestamp ?d"
     and fail: "decoded = None \<longrightarrow> lastTimestamp e' = lastTimestamp (objects (manager s) (d_entry ?d))"
    using resume_entry[of "manager s" ?d decoded] by blast
  have img: "d_entry ` set ?rest = d_entry ` set (inflight s) - {d_entry ?d}"
    using distinct_remove_nth(2)[of d_entry "inflight s" i] inv True
    by (simp add: wellLinked_def)
  have sub: "set ?rest \<subseteq> set (inflight s)"
    by (auto dest: in_set_takeD in_set_dropD)
  have din: "?d \<in> set (inflight s)" using True by simp
  have alloc: "d_entry ?d < allocated (manager s)"
    using inv din by (auto simp: wellLinked_def)
  have st: "managerStep s (DecodeSettles i decoded)
      = (if decoded \<noteq> None then Applied (d_sourceId ?d) (d_entry ?d) (d_timestamp ?d)
         else DecodeFailed (d_sourceId ?d),
         \<lparr>manager = (manager s)\<lparr>objects := (objects (manager s))(d_entry ?d := e')\<rparr>, inflight = ?rest\<rparr>)"
    using True r by (simp add: managerStep_def Let_def)
  have srt: "sorted_wrt f64_lt (appliedTo a as)"
    and last: "lastTimestamp (objects (manager s) a) \<noteq> NaN"
    and below_l: "\<forall>x \<in> set (appliedTo a as). f64_le x (lastTimestamp (objects (manager s) a))"
    and fresh: "allocated (manager s) \<le> a \<longrightarrow> appliedTo a as = []"
    and old: "\<forall>d \<in> set (inflight s). d_entry d = a \<longrightarrow>
        d_timestamp d \<noteq> NaN \<and> f64_lt (lastTimestamp (objects (manager s) a)) (d_timestamp d)"
    using ord by (simp_all add: ordered_def)
  show ?thesis
  proof (cases "d_entry ?d = a")
    case False
    then have app: "appliedTo a (as @ [fst (managerStep s (DecodeSettles i decoded))]) = appliedTo a as"
      by (simp add: st appliedTo_snoc)
    show ?thesis
      unfolding ordered_def app using False srt last below_l fresh old sub
      by (auto simp: st)
  next
    case same: True
    have none_left: "\<forall>d \<in> set ?rest. d_entry d \<noteq> a"
      using img same by (metis DiffE imageI insertCI)
    have dt: "d_timestamp ?d \<noteq> NaN" "f64_lt (lastTimestamp (objects (manager s) a)) (d_timestamp ?d)"
      using old din same by auto
    show ?thesis
    proof (cases decoded)
      case None
      have app: "appliedTo a (as @ [fst (managerStep s (DecodeSettles i decoded))]) = appliedTo a as"
        unfolding st using None by (simp add: appliedTo_snoc)
      have l': "lastTimestamp e' = lastTimestamp (objects (manager s) a)"
        using fail None same by simp
      show ?thesis
        unfolding ordered_def app using same srt last below_l fresh none_left l'
        by (auto simp: st)
    next
      case (Some b)
      have app: "appliedTo a (as @ [fst (managerStep s (DecodeSettles i decoded))])
          = appliedTo a as @ [d_timestamp ?d]"
        unfolding st using Some same by (simp add: appliedTo_snoc)
      have l': "lastTimestamp e' = d_timestamp ?d" using ok Some by simp
      have below: "\<forall>x \<in> set (appliedTo a as). f64_lt x (d_timestamp ?d)"
        using below_l dt(2) f64_le_lt_trans by blast
      have one: "sorted_wrt f64_lt (appliedTo a as @ [d_timestamp ?d])"
        using srt below by (simp add: sorted_wrt_append)
      have two: "\<forall>x \<in> set (appliedTo a as @ [d_timestamp ?d]). f64_le x (d_timestamp ?d)"
        using below f64_lt_le f64_le_refl[OF dt(1)] by auto
      have three: "\<not> allocated (manager s) \<le> a" using alloc same by simp
      show ?thesis
        unfolding ordered_def app using same one two three none_left l' dt(1)
        by (auto simp: st)
    qed
  qed
qed

lemma ordered_dispose:
  fixes s :: "'b Loop"
  assumes ord: "ordered s a as"
  shows "ordered (snd (managerStep s (DisposeTexture sid))) a
           (as @ [fst (managerStep s (DisposeTexture sid))])"
    and "ordered (snd (managerStep s DisposeAll)) a (as @ [fst (managerStep s DisposeAll)])"
  using ord
  by (simp_all add: ordered_def managerStep_def appliedTo_snoc disposeTexture_fields(2,3)
      disposeAll_fields)

lemma ordered_run:
  assumes "numericTimestamps evs"
  shows "wellLinked (snd (managerRun emptyLoop evs))
     \<and> ordered (snd (managerRun emptyLoop evs)) a (fst (managerRun emptyLoop evs))"
  using assms
proof (induction evs rule: rev_induct)
  case Nil
  then show ?case
    by (simp add: wellLinked_empty) (simp add: ordered_def emptyLoop_def emptyManager_def newEntry_def)
next
  case (snoc ev evs)
  let ?s = "snd (managerRun emptyLoop evs)"
  let ?as = "fst (managerRun emptyLoop evs)"
  have num: "numericTimestamps evs"
    and this_ev: "case ev of FrameArrives sid data \<Rightarrow> getFloat64 data 1 \<noteq> NaN | _ \<Rightarrow> True"
    using snoc.prems by (simp_all add: numericTimestamps_def)
  have inv: "wellLinked ?s" and ord: "ordered ?s a ?as"
    using snoc.IH[OF num] by simp_all
  have "ordered (snd (managerStep ?s ev)) a (?as @ [fst (managerStep ?s ev)])"
  proof (cases ev)
    case (FrameArrives sid data)
    then show ?thesis using ordered_frame[OF ord inv] this_ev by simp
  next
    case (DecodeSettles i decoded)
    then show ?thesis using ordered_settle[OF ord inv] by simp
  next
    case (DisposeTexture sid)
    then show ?thesis using ordered_dispose(1)[OF ord] by simp
  next
    case DisposeAll
    then show ?thesis using ordered_dispose(2)[OF ord] by simp
  qed
  then show ?case
    using step_invariant[OF inv, of ev] by (simp add: managerRun_snoc)
qed

text \<open>
  When every frame carries a timestamp that is a number, the timestamps applied to the
  texture of an entry increase strictly, whatever the order of arrival, however the
  decodes interleave and whatever is disposed of meanwhile.
\<close>

lemma applied_increasing:
  "numericTimestamps evs \<Longrightarrow> sorted_wrt f64_lt (appliedTo a (fst (managerRun emptyLoop evs)))"
  using ordered_run[of evs a] by (simp add: ordered_def)


text \<open>The sample frames, decoded.\<close>

lemma sample_header:
  "length (sampleFrame ts) = 16 + length ts"
  "getUint8 (sampleFrame ts) 0 = 1"
  "length ts = 8 \<Longrightarrow> getUint32 (sampleFrame ts) 9 = 2"
  "length ts = 8 \<Longrightarrow> getUint32 (sampleFrame ts) 13 = 2"
  "length ts = 8 \<Longrightarrow> getUint32 (sampleFrame ts) 17 = 3"
  "length ts = 8 \<Longrightarrow> getFloat64 (sampleFrame ts) 1 = decodeFloat64 (le_nat ts)"
  "length ts = 8 \<Longrightarrow> getFloat64 (sampleFrame ts) (Suc 0) = decodeFloat64 (le_nat ts)"
  by (simp_all add: sampleFrame_def frameBytes_def getUint8_def getUint32_def getFloat64_def)

lemma sample_timestamps:
  "length ts_one = 8" "length ts_two = 8" "length ts_three = 8" "length ts_nan = 8"
  "decodeFloat64 (le_nat ts_one) = Finite 1"
  "decodeFloat64 (le_nat ts_two) = Finite 2"
  "decodeFloat64 (le_nat ts_three) = Finite 3"
  "decodeFloat64 (le_nat ts_nan) = NaN"
  by (simp_all add: ts_one_def ts_two_def ts_three_def ts_nan_def decodeFloat64_def Let_def)

lemma sample_begin:
  assumes "length ts = 8"
  shows "processFrame_begin m sid (sampleFrame ts) =
     (let m1 = getTexture m sid;
          a = (case entryOf m sid of Some a \<Rightarrow> a | None \<Rightarrow> allocated m);
          entry = objects m1 a
      in if f64_le (decodeFloat64 (le_nat ts)) (lastTimestamp entry) then (None, m1)
         else if processing entry then (None, m1)
         else (Some \<lparr>d_sourceId = sid, d_entry = a, d_timestamp = decodeFloat64 (le_nat ts),
                      d_width = 2, d_height = 2, d_dataLen = 3,
                      d_jpegData = [0xFF, 0xD8, 0xFF]\<rparr>,
               m1\<lparr>objects := (objects m1)(a := entry\<lparr>processing := True\<rparr>)\<rparr>))"
proof -
  have h: "HEADER_SIZE \<le> length (sampleFrame ts)" "getUint8 (sampleFrame ts) 0 = 1"
       "HEADER_SIZE + getUint32 (sampleFrame ts) 17 \<le> length (sampleFrame ts)"
    using assms by (simp_all add: sample_header HEADER_SIZE_def)
  have payload: "take 3 (drop HEADER_SIZE (sampleFrame ts)) = [0xFF, 0xD8, 0xFF]"
    using assms by (simp add: sampleFrame_def frameBytes_def HEADER_SIZE_def)
  show ?thesis
    unfolding begin_accepted_header[OF h]
    using assms by (simp add: sample_header payload del: One_nat_def cong: if_cong)
qed

text \<open>
  Claim C3 fails on a frame whose timestamp bytes are a NaN: \<^verbatim>\<open>NaN <= lastTimestamp\<close> is
  false, so the frame is not dropped as stale and, once decoded, is applied and stored
  as \<open>lastTimestamp\<close>; then \<^verbatim>\<open>timestamp <= NaN\<close> is false for the next frame, which is
  applied whatever its timestamp. Frames with timestamps 3, NaN, 1, each decoded
  before the next arrives, are all three applied to the one texture, in that order.
\<close>

theorem nan_timestamp_breaks_ordering:
  "managerRun (emptyLoop :: nat Loop)
     [FrameArrives ''cam'' (sampleFrame ts_three), DecodeSettles 0 (Some 10),
      FrameArrives ''cam'' (sampleFrame ts_nan), DecodeSettles 0 (Some 11),
      FrameArrives ''cam'' (sampleFrame ts_one), DecodeSettles 0 (Some 12)]
   = ([Started ''cam'', Applied ''cam'' 0 (Finite 3), Started ''cam'', Applied ''cam'' 0 NaN,
       Started ''cam'', Applied ''cam'' 0 (Finite 1)],
      \<lparr>manager = \<lparr>textures = [(''cam'', 0)],
          objects = (\<lambda>a. newEntry)(0 :=
            \<lparr>texture_image = Bitmap 12, texture_needsUpdate = True, texture_disposals = 1,
             lastTimestamp = Finite 1, frameCount = 3, processing = False,
             currentWidth = 2, currentHeight = 2, lastBitmap = Some 12\<rparr>),
          allocated = 1\<rparr>,
       inflight = []\<rparr>)"
  by (simp add: managerStep_def sample_begin sample_timestamps emptyLoop_def emptyManager_def
      getTexture_def entryOf_def newEntry_def processFrame_resume_def Let_def numeral_3_eq_3)

text \<open>
  What holds of the busy flag in every state that a run reaches, dispose calls
  included: a frame for a source whose entry is busy is dropped and the state does not
  change, so nothing is queued; no two decodes in flight hold one entry, and an entry
  is busy exactly while a decode that holds it is in flight; when a decode settles,
  with a bitmap or with a failure, the busy flag of its entry is clear and no decode
  holding that entry is in flight; and a well-formed frame for a source whose entry is
  not busy, with a timestamp above the entry's last one, is accepted.
\<close>

lemma entry_backpressure:
  fixes evs :: "'b FrameEvent list"
  defines "s \<equiv> snd (managerRun emptyLoop evs)"
  shows "(\<forall>sid a data. entryOf (manager s) sid = Some a \<and> processing (objects (manager s) a) \<longrightarrow>
            managerStep s (FrameArrives sid data) = (Dropped sid, s))
     \<and> distinct (map d_entry (inflight s))
     \<and> (\<forall>a. processing (objects (manager s) a) \<longleftrightarrow> a \<in> d_entry ` set (inflight s))
     \<and> (\<forall>i decoded. i < length (inflight s) \<longrightarrow>
            \<not> processing (objects (manager (snd (managerStep s (DecodeSettles i decoded))))
                  (d_entry (inflight s ! i)))
          \<and> d_entry (inflight s ! i)
                \<notin> d_entry ` set (inflight (snd (managerStep s (DecodeSettles i decoded)))))
     \<and> (\<forall>sid a data. entryOf (manager s) sid = Some a \<and> \<not> processing (objects (manager s) a)
            \<and> HEADER_SIZE \<le> length data \<and> getUint8 data 0 = 1
            \<and> HEADER_SIZE + getUint32 data 17 \<le> length data
            \<and> f64_lt (lastTimestamp (objects (manager s) a)) (getFloat64 data 1) \<longrightarrow>
          fst (managerStep s (FrameArrives sid data)) = Started sid)"
proof -
  have inv: "wellLinked s"
    unfolding s_def by (rule run_invariant[OF wellLinked_empty])
  have one: "managerStep s (FrameArrives sid data) = (Dropped sid, s)"
    if "entryOf (manager s) sid = Some a" "processing (objects (manager s) a)" for sid a data
    using that begin_busy[where m = "manager s" and sid = sid and a = a and data = data]
    by (simp add: managerStep_def)
  have four: "\<not> processing (objects (manager (snd (managerStep s (DecodeSettles i decoded))))
                  (d_entry (inflight s ! i)))
          \<and> d_entry (inflight s ! i)
                \<notin> d_entry ` set (inflight (snd (managerStep s (DecodeSettles i decoded))))"
    if i: "i < length (inflight s)" for i decoded
  proof -
    let ?s' = "snd (managerStep s (DecodeSettles i decoded))"
    have inv': "wellLinked ?s'" using inv by (rule step_settle_invariant)
    have "inflight ?s' = take i (inflight s) @ drop (Suc i) (inflight s)"
      using i by (simp add: managerStep_def Let_def split_def)
    then have "d_entry (inflight s ! i) \<notin> d_entry ` set (inflight ?s')"
      using distinct_remove_nth(2)[of d_entry "inflight s" i] inv i
      by (simp add: wellLinked_def)
    then show ?thesis using inv' by (simp add: wellLinked_def)
  qed
  have five: "fst (managerStep s (FrameArrives sid data)) = Started sid"
    if e: "entryOf (manager s) sid = Some a" "\<not> processing (objects (manager s) a)"
      and h: "HEADER_SIZE \<le> length data" "getUint8 data 0 = 1"
           "HEADER_SIZE + getUint32 data 17 \<le> length data"
      and newer: "f64_lt (lastTimestamp (objects (manager s) a)) (getFloat64 data 1)" for sid a data
    using e f64_lt_not_le[OF newer]
    by (simp add: managerStep_def begin_accepted_header[OF h] Let_def getTexture_present)
  have two: "distinct (map d_entry (inflight s))"
    and three: "\<forall>a. processing (objects (manager s) a) \<longleftrightarrow> a \<in> d_entry ` set (inflight s)"
    using inv by (simp_all add: wellLinked_def)
  show ?thesis
    by (intro conjI allI impI) (use one two three four five in \<open>blast+\<close>)
qed

text \<open>
  Claim C4 fails where it says that at most one decode per source is in flight at any
  time. The busy flag lives in the entry object, and \<^verbatim>\<open>disposeTexture\<close> removes the
  entry from the map while the decode that holds it is still in flight; the next
  frame of the source gets a fresh entry, which is not busy, and starts a second
  decode. After a frame, a dispose and a frame for one source, two decodes of that
  source are in flight, each holding its own entry.
\<close>

theorem dispose_during_decode_starts_second:
  "managerRun (emptyLoop :: nat Loop)
     [FrameArrives ''cam'' (sampleFrame ts_one), DisposeTexture ''cam'',
      FrameArrives ''cam'' (sampleFrame ts_two)]
   = ([Started ''cam'', Disposed, Started ''cam''],
      \<lparr>manager = \<lparr>textures = [(''cam'', 1)],
          objects = (\<lambda>a. newEntry)
            (0 := newEntry\<lparr>processing := True, texture_disposals := 1\<rparr>,
             1 := newEntry\<lparr>processing := True\<rparr>),
          allocated = 2\<rparr>,
       inflight =
         [\<lparr>d_sourceId = ''cam'', d_entry = 0, d_timestamp = Finite 1, d_width = 2, d_height = 2,
           d_dataLen = 3, d_jpegData = [0xFF, 0xD8, 0xFF]\<rparr>,
          \<lparr>d_sourceId = ''cam'', d_entry = 1, d_timestamp = Finite 2, d_width = 2, d_height = 2,
           d_dataLen = 3, d_jpegData = [0xFF, 0xD8, 0xFF]\<rparr>]\<rparr>)"
  by (simp add: managerStep_def sample_begin sample_timestamps emptyLoop_def emptyManager_def
      getTexture_def entryOf_def newEntry_def disposeTexture_def disposeEntry_def Let_def
      numeral_2_eq_2)

lemma begin_fresh_entry:
  assumes "processFrame_begin m sid data = (Some d, m1)"
  shows "processFrame_resume m1 d None = (False, getTexture m sid)"
    and "objects m2 (d_entry d) = objects m1 (d_entry d) \<Longrightarrow>
         \<not> processing (objects (getTexture m sid) (d_entry d))
         \<and> processFrame_resume m2 d None
            = (False, m2\<lparr>objects := (objects m2)(d_entry d := objects (getTexture m sid) (d_entry d))\<rparr>)"
proof -
  let ?g = "getTexture m sid"
  from assms obtain a where
    m1: "m1 = ?g\<lparr>objects := (objects ?g)(a := (objects ?g a)\<lparr>processing := True\<rparr>)\<rparr>"
    and a: "d_entry d = a" and np: "\<not> processing (objects ?g a)"
    by (cases rule: begin_cases[of m sid data]) auto
  have restore: "(objects ?g a)\<lparr>processing := True, processing := False\<rparr> = objects ?g a"
    using np by simp
  show "processFrame_resume m1 d None = (False, ?g)"
    by (simp add: resume_failed a m1 restore)
  show "\<not> processing (objects ?g (d_entry d))
         \<and> processFrame_resume m2 d None
            = (False, m2\<lparr>objects := (objects m2)(d_entry d := objects ?g (d_entry d))\<rparr>)"
    if "objects m2 (d_entry d) = objects m1 (d_entry d)"
    using that np by (simp add: resume_failed a m1 restore)
qed

text \<open>
  Claim C5. A buffer shorter than 21 bytes, or whose type byte is not 1, or shorter
  than 21 plus the declared payload length, makes \<^verbatim>\<open>processFrame\<close> return \<^verbatim>\<open>false\<close> with
  the manager untouched. When the decode fails, the call returns \<^verbatim>\<open>false\<close> and the
  manager is the one before the call (with the placeholder entry of the source, had
  it none): timestamp, image, width and height of the entry are as they were and its
  busy flag is clear; this holds too when the manager changed elsewhere during the
  decode.
\<close>

theorem rejected_frame_leaves_entry:
  "(length data < HEADER_SIZE \<or> getUint8 data 0 \<noteq> 1
      \<or> length data < HEADER_SIZE + getUint32 data 17
      \<longrightarrow> processFrame_begin m sid data = (None, m))
   \<and> (\<forall>d m1. processFrame_begin m sid data = (Some d, m1) \<longrightarrow>
         processFrame_resume m1 d None = (False, getTexture m sid)
       \<and> (\<forall>a. entryOf m sid = Some a \<longrightarrow> processFrame_resume m1 d None = (False, m))
       \<and> (\<forall>m2. objects m2 (d_entry d) = objects m1 (d_entry d) \<longrightarrow>
             \<not> processing (objects (getTexture m sid) (d_entry d))
             \<and> processFrame_resume m2 d None
                = (False, m2\<lparr>objects := (objects m2)
                     (d_entry d := objects (getTexture m sid) (d_entry d))\<rparr>)))"
proof -
  have a: "processFrame_begin m sid data = (None, m)"
    if "length data < HEADER_SIZE \<or> getUint8 data 0 \<noteq> 1
      \<or> length data < HEADER_SIZE + getUint32 data 17"
    using that by (rule begin_header_rejects)
  have b: "processFrame_resume m1 d None = (False, getTexture m sid)"
    if "processFrame_begin m sid data = (Some d, m1)" for d m1
    using that by (rule begin_fresh_entry(1))
  have c: "processFrame_resume m1 d None = (False, m)"
    if "processFrame_begin m sid data = (Some d, m1)" "entryOf m sid = Some a" for d m1 a
    using b[OF that(1)] that(2) by (simp add: getTexture_present)
  have d: "\<not> processing (objects (getTexture m sid) (d_entry d))
             \<and> processFrame_resume m2 d None
                = (False, m2\<lparr>objects := (objects m2)
                     (d_entry d := objects (getTexture m sid) (d_entry d))\<rparr>)"
    if "processFrame_begin m sid data = (Some d, m1)"
       "objects m2 (d_entry d) = objects m1 (d_entry d)" for d m1 m2
    using that by (rule begin_fresh_entry(2))
  show ?thesis using a b c d by blast
qed


theorem rejected_frame_leaves_entry_witness:
  "processFrame_begin (emptyManager :: nat Manager) ''cam'' [1, 0, 0] = (None, emptyManager)
   \<and> processFrame_resume
        (snd (processFrame_begin (emptyManager :: nat Manager) ''cam'' (sampleFrame ts_one)))
        \<lparr>d_sourceId = ''cam'', d_entry = 0, d_timestamp = Finite 1, d_width = 2, d_height = 2,
         d_dataLen = 3, d_jpegData = [0xFF, 0xD8, 0xFF]\<rparr> None
      = (False, \<lparr>textures = [(''cam'', 0)], objects = (\<lambda>a. newEntry), allocated = 1\<rparr>)
   \<and> processFrame_resume
        (snd (processFrame_begin
           \<lparr>textures = [(''cam'', 0)],
            objects = (\<lambda>a. (newEntry :: nat Entry))
               (0 := newEntry\<lparr>lastTimestamp := Finite (1 / 2), frameCount := 5\<rparr>),
            allocated = 1\<rparr> ''cam'' (sampleFrame ts_one)))
        \<lparr>d_sourceId = ''cam'', d_entry = 0, d_timestamp = Finite 1, d_width = 2, d_height = 2,
         d_dataLen = 3, d_jpegData = [0xFF, 0xD8, 0xFF]\<rparr> None
      = (False, \<lparr>textures = [(''cam'', 0)],
            objects = (\<lambda>a. (newEntry :: nat Entry))
               (0 := newEntry\<lparr>lastTimestamp := Finite (1 / 2), frameCount := 5\<rparr>),
            allocated = 1\<rparr>)"
proof -
  let ?e = "(newEntry :: nat Entry)\<lparr>lastTimestamp := Finite (1 / 2), frameCount := 5\<rparr>"
  let ?m = "\<lparr>textures = [(''cam'', 0)], objects = (\<lambda>a. (newEntry :: nat Entry))(0 := ?e),
             allocated = 1\<rparr>"
  let ?d = "\<lparr>d_sourceId = ''cam'', d_entry = 0, d_timestamp = Finite 1, d_width = 2, d_height = 2,
               d_dataLen = 3, d_jpegData = [0xFF, 0xD8, 0xFF]\<rparr>"
  have short: "length [1, 0, 0 :: byte] < HEADER_SIZE"
    by (simp add: HEADER_SIZE_def)
  have started: "fst (processFrame_begin (emptyManager :: nat Manager) ''cam'' (sampleFrame ts_one))
      = Some ?d"
    by (simp add: sample_begin sample_timestamps getTexture_def entryOf_def emptyManager_def
        newEntry_def)
  have started': "fst (processFrame_begin ?m ''cam'' (sampleFrame ts_one)) = Some ?d"
    by (simp add: sample_begin sample_timestamps getTexture_def entryOf_def newEntry_def)
  have present: "entryOf ?m ''cam'' = Some 0"
    by (simp add: entryOf_def)
  have fresh: "getTexture (emptyManager :: nat Manager) ''cam''
      = \<lparr>textures = [(''cam'', 0)], objects = (\<lambda>a. newEntry), allocated = 1\<rparr>"
    by (simp add: getTexture_def entryOf_def emptyManager_def fun_eq_iff)
  have one: "processFrame_begin (emptyManager :: nat Manager) ''cam'' [1, 0, 0] = (None, emptyManager)"
    using rejected_frame_leaves_entry[where m = "emptyManager :: nat Manager" and sid = "''cam''" and data = "[1, 0, 0]"] short
    by blast
  obtain m1 where p1: "processFrame_begin (emptyManager :: nat Manager) ''cam'' (sampleFrame ts_one)
      = (Some ?d, m1)"
    using started by (cases "processFrame_begin (emptyManager :: nat Manager) ''cam'' (sampleFrame ts_one)") simp
  obtain m1' where p2: "processFrame_begin ?m ''cam'' (sampleFrame ts_one) = (Some ?d, m1')"
    using started' by (cases "processFrame_begin ?m ''cam'' (sampleFrame ts_one)") simp
  have "processFrame_resume m1 ?d None = (False, getTexture emptyManager ''cam'')"
    using rejected_frame_leaves_entry[where m = "emptyManager :: nat Manager" and sid = "''cam''"
          and data = "sampleFrame ts_one"] p1
    by blast
  then have two: "processFrame_resume
        (snd (processFrame_begin (emptyManager :: nat Manager) ''cam'' (sampleFrame ts_one))) ?d None
      = (False, getTexture emptyManager ''cam'')"
    by (simp only: p1 snd_conv)
  have "processFrame_resume m1' ?d None = (False, ?m)"
    using rejected_frame_leaves_entry[where m = ?m and sid = "''cam''" and data = "sampleFrame ts_one"] p2 present
    by blast
  then have three: "processFrame_resume (snd (processFrame_begin ?m ''cam'' (sampleFrame ts_one))) ?d None
      = (False, ?m)"
    by (simp only: p2 snd_conv)
  show ?thesis
    using one two three by (simp only: fresh simp_thms)
qed

end
